theory Spec2Isabelle
  imports Complex_Main "HOL-Library.Extended_Nat" "HOL-Library.AList"
begin

section \<open>Strings and characters\<close>

text \<open>
  A JavaScript string is a sequence of UTF-16 code units. The model uses \<^typ>\<open>string\<close>,
  whose characters are the code units 0 to 255 (ASCII and Latin-1): every string literal of
  the functions modelled here (the court pattern, the field names, the AM/PM labels) lies in
  that range. Text that the page shows and that lies outside it (the em dash of the
  placeholders) is a constructor of the rendered view, never a character.
\<close>

text \<open>
  \<^verbatim>\<open>\s\<close> in a regular expression, \<^verbatim>\<open>String.prototype.trim\<close> and the white space that
  \<^verbatim>\<open>Number\<close> strips are one set: WhiteSpace and LineTerminator. Below 256 these are TAB, LF,
  VT, FF, CR, SPACE and NBSP.
\<close>

definition isSpace :: "char \<Rightarrow> bool" where
  "isSpace ch = (ch \<in> set [CHR 0x09, CHR 0x0A, CHR 0x0B, CHR 0x0C, CHR 0x0D, CHR 0x20, CHR 0xA0])"

text \<open>The dot of a regular expression (no \<^verbatim>\<open>s\<close> flag) refuses the line terminators.\<close>

definition isLineTerminator :: "char \<Rightarrow> bool" where
  "isLineTerminator ch = (ch \<in> set [CHR 0x0A, CHR 0x0D])"

definition isDigit :: "char \<Rightarrow> bool" where
  "isDigit ch = (ch \<in> set ''0123456789'')"

definition digitVal :: "char \<Rightarrow> nat" where
  "digitVal ch = of_char ch - 48"

definition trim :: "string \<Rightarrow> string" where
  "trim s = rev (dropWhile isSpace (rev (dropWhile isSpace s)))"

text \<open>
  \<^verbatim>\<open>toLowerCase\<close> on code units below 256: A to Z, and the Latin-1 capitals 0xC0 to 0xDE
  but the multiplication sign 0xD7, move up by 32.
\<close>

definition toLowerChar :: "char \<Rightarrow> char" where
  "toLowerChar ch =
     (let n = (of_char ch :: nat)
      in if (65 \<le> n \<and> n \<le> 90) \<or> (192 \<le> n \<and> n \<le> 222 \<and> n \<noteq> 215)
         then char_of (n + 32) else ch)"

definition toLowerCase :: "string \<Rightarrow> string" where
  "toLowerCase s = map toLowerChar s"

text \<open>The value of a run of decimal digits, most significant first.\<close>

definition digitsVal :: "string \<Rightarrow> nat" where
  "digitsVal ds = foldl (\<lambda>acc ch. 10 * acc + digitVal ch) 0 ds"

text \<open>
  \<^verbatim>\<open>String(n)\<close> for an integer \<open>n\<close> of magnitude at most \<open>2\<^sup>5\<^sup>3\<close>: its decimal digits, with a
  minus sign below zero. (Beyond that magnitude a Number is printed from the shortest digits that
  read back as the same double, followed by zeros or, from \<open>10\<^sup>2\<^sup>1\<close> on, by an exponent; this
  function is used for the elements of a time-of-day array only, see \<open>gval\<close> below, and every
  statement that prints a number an array holds bounds that number.)
\<close>

fun natToString :: "nat \<Rightarrow> string" where
  "natToString n =
     (if n < 10 then [char_of (48 + n)]
      else natToString (n div 10) @ [char_of (48 + n mod 10)])"

declare natToString.simps [simp del]

definition intToString :: "int \<Rightarrow> string" where
  "intToString i = (if i < 0 then CHR ''-'' # natToString (nat (- i)) else natToString (nat i))"

section \<open>Numbers\<close>

text \<open>
  A JavaScript Number is an IEEE 754 double. The model keeps a finite double as the rational
  it denotes (the two zeros are one value: no function here tells them apart) and adds NaN and
  the two infinities.
\<close>

datatype jsnum = NaN | NegInf | Fin rat | PosInf

text \<open>The relational operator \<^verbatim>\<open>a > b\<close> on Numbers: false as soon as one side is NaN.\<close>

fun jsGreater :: "jsnum \<Rightarrow> jsnum \<Rightarrow> bool" where
  "jsGreater NaN _ = False"
| "jsGreater _ NaN = False"
| "jsGreater NegInf _ = False"
| "jsGreater _ PosInf = False"
| "jsGreater PosInf _ = True"
| "jsGreater _ NegInf = True"
| "jsGreater (Fin x) (Fin y) = (y < x)"

fun jsNegate :: "jsnum \<Rightarrow> jsnum" where
  "jsNegate NaN = NaN"
| "jsNegate NegInf = PosInf"
| "jsNegate PosInf = NegInf"
| "jsNegate (Fin x) = Fin (- x)"

fun bitLength :: "nat \<Rightarrow> nat" where
  "bitLength n = (if n = 0 then 0 else Suc (bitLength (n div 2)))"

declare bitLength.simps [simp del]

text \<open>The integer nearest to \<open>a / b\<close>, a tie going to the even one.\<close>

definition roundHalfEven :: "nat \<Rightarrow> nat \<Rightarrow> nat" where
  "roundHalfEven a b =
     (let q = a div b; r = a mod b
      in if 2 * r < b then q
         else if b < 2 * r then q + 1
         else if even q then q else q + 1)"

text \<open>\<open>\<lfloor>log\<^sub>2 (a / b)\<rfloor>\<close> for positive \<open>a\<close> and \<open>b\<close>.\<close>

definition floorLog2 :: "nat \<Rightarrow> nat \<Rightarrow> int" where
  "floorLog2 a b =
     (let k = int (bitLength a) - int (bitLength b)
      in if (if 0 \<le> k then b * 2 ^ nat k \<le> a else b \<le> a * 2 ^ nat (- k)) then k else k - 1)"

text \<open>
  The double nearest to the rational \<open>a / b\<close> (\<open>0 < b\<close>), as the conversions of the language
  round: 53 significant bits, ties to even, exponents down to \<open>-1074\<close> (subnormals), and
  infinity from \<open>2\<^sup>1\<^sup>0\<^sup>2\<^sup>4\<close> on.
\<close>

definition toDouble :: "nat \<Rightarrow> nat \<Rightarrow> jsnum" where
  "toDouble a b =
     (if a = 0 then Fin 0
      else
        let e = max (floorLog2 a b - 52) (- 1074);
            m = (if 0 \<le> e then roundHalfEven a (b * 2 ^ nat e)
                 else roundHalfEven (a * 2 ^ nat (- e)) b);
            x = (if 0 \<le> e then of_nat (m * 2 ^ nat e) else of_nat m / of_nat (2 ^ nat (- e)))
        in if (2 :: rat) ^ 1024 \<le> x then PosInf else Fin x)"

text \<open>
  \<^verbatim>\<open>Number(s)\<close> for a string (StringToNumber): white space is stripped; the empty string is 0;
  then a binary, octal or hexadecimal integer literal, or an optionally signed decimal literal
  (\<^verbatim>\<open>Infinity\<close>, digits with an optional fraction, an optional exponent); anything else is NaN.
  The mathematical value is rounded to the nearest double. (Past 20 significant digits the
  language lets an implementation round the digits first; the model rounds the exact value.)
\<close>

definition hexVal :: "char \<Rightarrow> nat option" where
  "hexVal ch =
     (let n = (of_char ch :: nat)
      in if 48 \<le> n \<and> n \<le> 57 then Some (n - 48)
         else if 97 \<le> n \<and> n \<le> 102 then Some (n - 87)
         else if 65 \<le> n \<and> n \<le> 70 then Some (n - 55)
         else None)"

definition radixDigits :: "nat \<Rightarrow> string \<Rightarrow> nat option" where
  "radixDigits radix ds =
     (if ds \<noteq> [] \<and> list_all (\<lambda>ch. case hexVal ch of None \<Rightarrow> False | Some d \<Rightarrow> d < radix) ds
      then Some (foldl (\<lambda>acc ch. radix * acc + the (hexVal ch)) 0 ds)
      else None)"

definition nonDecimalLiteral :: "string \<Rightarrow> nat option" where
  "nonDecimalLiteral s =
     (case s of
        z # p # ds \<Rightarrow>
          (if z \<noteq> CHR ''0'' then None
           else if p = CHR ''x'' \<or> p = CHR ''X'' then radixDigits 16 ds
           else if p = CHR ''o'' \<or> p = CHR ''O'' then radixDigits 8 ds
           else if p = CHR ''b'' \<or> p = CHR ''B'' then radixDigits 2 ds
           else None)
      | _ \<Rightarrow> None)"

text \<open>The exponent part after its \<^verbatim>\<open>e\<close>: an optional sign and at least one digit.\<close>

definition signedInteger :: "string \<Rightarrow> int option" where
  "signedInteger s =
     (let (neg, ds) = (case s of
                         ch # r \<Rightarrow> if ch = CHR ''-'' then (True, r)
                                   else if ch = CHR ''+'' then (False, r) else (False, s)
                       | [] \<Rightarrow> (False, s))
      in if ds \<noteq> [] \<and> list_all isDigit ds
         then Some (if neg then - int (digitsVal ds) else int (digitsVal ds))
         else None)"

definition unsignedDecimal :: "string \<Rightarrow> jsnum option" where
  "unsignedDecimal s =
     (if s = ''Infinity'' then Some PosInf
      else
        let ip = takeWhile isDigit s; r1 = dropWhile isDigit s;
            dot = (r1 \<noteq> [] \<and> hd r1 = CHR ''.'');
            fp = (if dot then takeWhile isDigit (tl r1) else []);
            r2 = (if dot then dropWhile isDigit (tl r1) else r1)
        in if ip = [] \<and> fp = [] then None
           else
             (case (if r2 = [] then Some 0
                    else if hd r2 = CHR ''e'' \<or> hd r2 = CHR ''E'' then signedInteger (tl r2)
                    else None) of
                None \<Rightarrow> None
              | Some ex \<Rightarrow>
                  let m = digitsVal (ip @ fp); e = ex - int (length fp)
                  in Some (if 0 \<le> e then toDouble (m * 10 ^ nat e) 1
                           else toDouble m (10 ^ nat (- e)))))"

definition Number :: "string \<Rightarrow> jsnum" where
  "Number s =
     (let t = trim s
      in if t = [] then Fin 0
         else
           (case nonDecimalLiteral t of
              Some n \<Rightarrow> toDouble n 1
            | None \<Rightarrow>
                (case t of
                   ch # r \<Rightarrow>
                     (if ch = CHR ''-'' then
                        (case unsignedDecimal r of None \<Rightarrow> NaN | Some x \<Rightarrow> jsNegate x)
                      else if ch = CHR ''+'' then
                        (case unsignedDecimal r of None \<Rightarrow> NaN | Some x \<Rightarrow> x)
                      else (case unsignedDecimal t of None \<Rightarrow> NaN | Some x \<Rightarrow> x))
                 | [] \<Rightarrow> Fin 0)))"

section \<open>The parsed data: matchups and rounds\<close>

record matchup =
  court :: string
  hasScores :: bool
  teamA :: string
  teamB :: string
  scoreA :: string
  scoreB :: string

record round =
  time :: string
  matchups :: "matchup list"

section \<open>Rendering one matchup\<close>

text \<open>
  The markup is modelled by its structure. A team row is
  \<^verbatim>\<open><div class="team-row[ winner]"><span class="team-players">..</span>[score]</div>\<close>:
  \<open>winner\<close> is the class, \<open>players\<close> the name (\<open>None\<close> is the em dash that stands for an empty
  name), \<open>score\<close> the Number in the score tag (\<open>None\<close>: no tag).
\<close>

record teamRow =
  winner :: bool
  players :: "string option"
  score :: "jsnum option"

text \<open>
  A cell is the placeholder \<^verbatim>\<open><span class="no-matches">\<close> with its em dash, or the two team
  rows around the divider.
\<close>

datatype cellView = NoMatches | MatchTeams teamRow teamRow

definition renderMatchup :: "matchup \<Rightarrow> bool \<Rightarrow> cellView" where
  "renderMatchup m showWinner =
     (if teamA m = [] \<and> teamB m = [] then NoMatches
      else
        let sA = (if scoreA m \<noteq> [] then Some (Number (scoreA m)) else None);
            sB = (if scoreB m \<noteq> [] then Some (Number (scoreB m)) else None);
            both = (sA \<noteq> None \<and> sB \<noteq> None);
            aWins = (showWinner \<and> both \<and> jsGreater (the sA) (the sB));
            bWins = (showWinner \<and> both \<and> jsGreater (the sB) (the sA))
        in MatchTeams
             \<lparr>winner = aWins, players = (if teamA m = [] then None else Some (teamA m)), score = sA\<rparr>
             \<lparr>winner = bWins, players = (if teamB m = [] then None else Some (teamB m)), score = sB\<rparr>)"

text \<open>Which sides of a rendered cell carry the winner class.\<close>

fun winnerA :: "cellView \<Rightarrow> bool" where
  "winnerA NoMatches = False"
| "winnerA (MatchTeams a b) = winner a"

fun winnerB :: "cellView \<Rightarrow> bool" where
  "winnerB NoMatches = False"
| "winnerB (MatchTeams a b) = winner b"

text \<open>The two team rows of a rendered cell, when it is not the placeholder.\<close>

fun sideA :: "cellView \<Rightarrow> teamRow option" where
  "sideA NoMatches = None"
| "sideA (MatchTeams a b) = Some a"

fun sideB :: "cellView \<Rightarrow> teamRow option" where
  "sideB NoMatches = None"
| "sideB (MatchTeams a b) = Some b"

section \<open>Column headers to court definitions\<close>

text \<open>
  Under the \<^verbatim>\<open>i\<close> flag a pattern character and an input character match when their
  canonical (upper-case) forms agree. Below 256, a to z and the Latin-1 small letters 0xE0 to
  0xFE but the division sign 0xF7 have an upper-case form below 256; the other code units
  (also the three whose upper-case form lies beyond 255) stand for themselves here.
\<close>

definition canonicalize :: "char \<Rightarrow> char" where
  "canonicalize ch =
     (let n = (of_char ch :: nat)
      in if (97 \<le> n \<and> n \<le> 122) \<or> (224 \<le> n \<and> n \<le> 254 \<and> n \<noteq> 247)
         then char_of (n - 32) else ch)"

text \<open>
  \<^verbatim>\<open>label.match(/^(Court\s+\d+)\s+(.+)$/i)\<close>, giving the two groups. The quantifiers are
  greedy: the first \<^verbatim>\<open>\s+\<close> and \<^verbatim>\<open>\d+\<close> take their whole runs and have nothing to give
  back (what follows must be a digit, then white space). The second \<^verbatim>\<open>\s+\<close> takes its whole
  run too, and \<^verbatim>\<open>.+\<close> the rest up to the end of the input, which must hold no line
  terminator; when nothing is left after the run, \<^verbatim>\<open>\s+\<close> gives its last character back to
  \<^verbatim>\<open>.+\<close>, if the run has two characters at least and the last one is no line terminator.
\<close>

definition matchCourt :: "string \<Rightarrow> (string \<times> string) option" where
  "matchCourt label =
     (let lit = take 5 label; r0 = drop 5 label;
          w1 = takeWhile isSpace r0; r1 = dropWhile isSpace r0;
          ds = takeWhile isDigit r1; r2 = dropWhile isDigit r1;
          w2 = takeWhile isSpace r2; r3 = dropWhile isSpace r2
      in if map canonicalize lit \<noteq> ''COURT'' \<or> w1 = [] \<or> ds = [] \<or> w2 = [] then None
         else if r3 \<noteq> [] then
           (if list_ex isLineTerminator r3 then None else Some (lit @ w1 @ ds, r3))
         else if 2 \<le> length w2 \<and> \<not> isLineTerminator (last w2) then
           Some (lit @ w1 @ ds, [last w2])
         else None)"

text \<open>
  A court object. Its field \<^verbatim>\<open>hasScores\<close> is \<open>ct_hasScores\<close> here, since a matchup has a
  field of that name too; a column index that was never assigned is \<open>None\<close>.
\<close>

record courtDef =
  name :: string
  ct_hasScores :: bool
  teamACol :: "nat option"
  teamBCol :: "nat option"
  scoreACol :: "nat option"
  scoreBCol :: "nat option"

text \<open>The chain of comparisons on the field name, for the header at index \<open>i\<close>.\<close>

definition setField :: "string \<Rightarrow> nat \<Rightarrow> courtDef \<Rightarrow> courtDef" where
  "setField field i c =
     (if field = ''team a'' \<or> field = ''a'' then c\<lparr>teamACol := Some i\<rparr>
      else if field = ''team b'' \<or> field = ''b'' then c\<lparr>teamBCol := Some i\<rparr>
      else if field = ''score a'' then c\<lparr>scoreACol := Some i, ct_hasScores := True\<rparr>
      else if field = ''score b'' then c\<lparr>scoreBCol := Some i, ct_hasScores := True\<rparr>
      else c)"

text \<open>
  The object \<^verbatim>\<open>map\<close>, keyed by court name, is an association list in insertion order, the
  order in which \<^verbatim>\<open>Object.values\<close> lists string keys (a court name holds white space, so
  it is never an array index and never a property that an empty object inherits). One call of
  the \<^verbatim>\<open>forEach\<close> callback, on the header \<open>label\<close> at index \<open>i\<close>:
\<close>

definition headerStep :: "nat \<times> string \<Rightarrow> (string \<times> courtDef) list \<Rightarrow> (string \<times> courtDef) list" where
  "headerStep p mp =
     (let i = fst p; label = snd p
      in if i < 2 \<or> label = [] then mp
         else
           (case matchCourt label of
              None \<Rightarrow> mp
            | Some (courtName, g2) \<Rightarrow>
                let field = toLowerCase (trim g2);
                    c = (case map_of mp courtName of
                           None \<Rightarrow> \<lparr>name = courtName, ct_hasScores = False, teamACol = None,
                                     teamBCol = None, scoreACol = None, scoreBCol = None\<rparr>
                         | Some c0 \<Rightarrow> c0)
                in AList.update courtName (setField field i c) mp))"

definition courtMap :: "string list \<Rightarrow> (string \<times> courtDef) list" where
  "courtMap headers = fold headerStep (List.enumerate 0 headers) []"

text \<open>
  The sort key \<^verbatim>\<open>n(s) = parseInt(s.match(/\d+/)?.[0] ?? 0, 10)\<close>: the first run of digits of
  the name, read as a Number, and 0 when the name has no digit. \<^verbatim>\<open>parseInt\<close> of a run of
  digits is the double nearest to the integer written (past 20 digits the language lets an
  implementation round the digits first; the model rounds the exact value): a non-negative
  integer or Infinity, kept as an \<^typ>\<open>enat\<close>.
\<close>

definition firstDigits :: "string \<Rightarrow> string" where
  "firstDigits s = takeWhile isDigit (dropWhile (\<lambda>ch. \<not> isDigit ch) s)"

definition parseIntDigits :: "string \<Rightarrow> enat" where
  "parseIntDigits ds =
     (case toDouble (digitsVal ds) 1 of
        Fin x \<Rightarrow> enat (nat \<lfloor>x\<rfloor>)
      | _ \<Rightarrow> \<infinity>)"

definition courtNumber :: "string \<Rightarrow> enat" where
  "courtNumber s = (let ds = firstDigits s in if ds = [] then 0 else parseIntDigits ds)"

text \<open>
  \<^verbatim>\<open>Array.prototype.sort\<close> is stable (in every engine that runs this file, which needs the
  optional chaining of ES2020), and the comparator \<^verbatim>\<open>n(a.name) - n(b.name)\<close> is negative,
  zero or positive as \<open>n(a.name)\<close> is below, equal to or above \<open>n(b.name)\<close> (the difference of
  two infinities is NaN, which \<^verbatim>\<open>sort\<close> reads as zero): the result is the stable sort by that
  key.
\<close>

definition parseCourts :: "string list \<Rightarrow> courtDef list" where
  "parseCourts headers = sort_key (\<lambda>c. courtNumber (name c)) (map snd (courtMap headers))"

text \<open>The integer that the first run of digits of a court name writes.\<close>

definition courtInteger :: "string \<Rightarrow> nat" where
  "courtInteger s = digitsVal (firstDigits s)"

section \<open>Rows to rounds\<close>

text \<open>
  The table of the data source. A cell has a raw value \<open>v\<close> and a formatted string \<open>f\<close>, each
  of which may be missing; a row has a list \<open>c\<close> of cells, which may be missing, and whose
  entries may be null. A raw value is an array or any other value. An array is the time-of-day
  encoding of the data source, hour, minute, second and millisecond, whatever its length is:
  a list of integers, each of magnitude at most \<open>2\<^sup>5\<^sup>3\<close>, on which \<^verbatim>\<open>>=\<close>, \<^verbatim>\<open>%\<close>, \<^verbatim>\<open>===\<close>
  and \<^verbatim>\<open>String\<close> are those of the integers (an array holding a fraction, a larger number or
  a value that is no number is outside the model). Any other value this code only ever turns
  into a string: \<open>GScalar s\<close> stands for a value \<open>v\<close> that is neither null nor an array, with
  \<^verbatim>\<open>String(v)\<close> equal to \<open>s\<close>. The fields \<open>v\<close>, \<open>f\<close>, \<open>c\<close> carry a prefix here, so that the
  letters stay free for variables.
\<close>

datatype gval = GArray "int list" | GScalar string

record gcell =
  cell_v :: "gval option"
  cell_f :: "string option"

record grow =
  row_c :: "gcell option list option"

record gcol =
  label :: "string option"

record gtable =
  cols :: "gcol list"
  rows :: "grow list"

text \<open>\<^verbatim>\<open>String(v)\<close>: an array is its elements joined by commas.\<close>

fun joinComma :: "string list \<Rightarrow> string" where
  "joinComma [] = []"
| "joinComma [x] = x"
| "joinComma (x # y # zs) = x @ '','' @ joinComma (y # zs)"

fun toString :: "gval \<Rightarrow> string" where
  "toString (GArray xs) = joinComma (map intToString xs)"
| "toString (GScalar s) = s"

text \<open>\<^verbatim>\<open>row.c?.[idx]\<close>: nothing when the list is missing, the index out of range or the entry null.\<close>

definition rowCell :: "grow \<Rightarrow> nat \<Rightarrow> gcell option" where
  "rowCell row idx =
     (case row_c row of
        None \<Rightarrow> None
      | Some cs \<Rightarrow> if idx < length cs then cs ! idx else None)"

definition cell :: "grow \<Rightarrow> nat option \<Rightarrow> string" where
  "cell row idx =
     (case idx of
        None \<Rightarrow> []
      | Some i \<Rightarrow>
          (case rowCell row i of
             None \<Rightarrow> []
           | Some col \<Rightarrow> (case cell_v col of None \<Rightarrow> [] | Some val \<Rightarrow> trim (toString val))))"

text \<open>The remainder operator \<^verbatim>\<open>%\<close> on integers, for a positive divisor: the sign is the dividend's.\<close>

definition jsRem :: "int \<Rightarrow> int \<Rightarrow> int" where
  "jsRem x y = (if x < 0 then - ((- x) mod y) else x mod y)"

text \<open>\<^verbatim>\<open>s.padStart(2, '0')\<close>.\<close>

definition padStart2 :: "string \<Rightarrow> string" where
  "padStart2 s = replicate (2 - length s) (CHR ''0'') @ s"

text \<open>
  The array branch of \<^verbatim>\<open>timeCell\<close>: \<^verbatim>\<open>[h, m] = v\<close>, where an element that the array does not
  have is \<^verbatim>\<open>undefined\<close> (it compares false, its remainder is NaN, its string is
  \<^verbatim>\<open>undefined\<close>).
\<close>

definition timeOfDay :: "int list \<Rightarrow> string" where
  "timeOfDay v =
     (let h = (if 0 < length v then Some (v ! 0) else None);
          m = (if 1 < length v then Some (v ! 1) else None);
          ampm = (case h of Some x \<Rightarrow> if 12 \<le> x then ''PM'' else ''AM'' | None \<Rightarrow> ''AM'');
          h12 = (case h of Some x \<Rightarrow> if jsRem x 12 = 0 then 12 else jsRem x 12 | None \<Rightarrow> 12)
      in if m = Some 0 then intToString h12 @ ampm
         else intToString h12 @ '':''
              @ padStart2 (case m of Some y \<Rightarrow> intToString y | None \<Rightarrow> ''undefined'') @ ampm)"

definition timeCell :: "grow \<Rightarrow> nat \<Rightarrow> string" where
  "timeCell row idx =
     (case rowCell row idx of
        None \<Rightarrow> []
      | Some col \<Rightarrow>
          (case cell_f col of
             Some s \<Rightarrow> trim s
           | None \<Rightarrow>
               (case cell_v col of
                  None \<Rightarrow> []
                | Some (GArray xs) \<Rightarrow> timeOfDay xs
                | Some val \<Rightarrow> trim (toString val))))"

definition headers :: "gtable \<Rightarrow> string list" where
  "headers table = map (\<lambda>col. case label col of None \<Rightarrow> [] | Some l \<Rightarrow> l) (cols table)"

definition parseRounds :: "gtable \<Rightarrow> round list" where
  "parseRounds table =
     (let courts = parseCourts (headers table)
      in map (\<lambda>row.
           \<lparr>time = timeCell row 1,
            matchups = map (\<lambda>ct.
              \<lparr>court = name ct,
               hasScores = ct_hasScores ct,
               teamA = cell row (teamACol ct),
               teamB = cell row (teamBCol ct),
               scoreA = (if scoreACol ct \<noteq> None then cell row (scoreACol ct) else []),
               scoreB = (if scoreBCol ct \<noteq> None then cell row (scoreBCol ct) else [])\<rparr>) courts\<rparr>)
         (rows table))"

section \<open>Rendering the grid\<close>

text \<open>
  What a call can throw: a TypeError of the engine (a property read on \<^verbatim>\<open>undefined\<close>), or an
  \<^verbatim>\<open>Error\<close> made by the code with its message.
\<close>

datatype error = TypeError | Error string

text \<open>
  A body row \<^verbatim>\<open><tr><th class="court-header court-N">name</th>cells</tr>\<close> and what
  \<^verbatim>\<open>renderAll\<close> writes into the content element: one of the two empty states, or the table
  with its time headers and body rows. The last constructor is the error message that the load
  cycle writes.
\<close>

record courtRow =
  rowClass :: string
  rowName :: string
  cells :: "cellView list"

datatype content =
    SheetEmpty
  | NoTeamMatches
  | Schedule "string list" "courtRow list"
  | CouldNotLoad error

definition courtClass :: "string \<Rightarrow> string" where
  "courtClass s = ''court-'' @ firstDigits s"

text \<open>
  \<^verbatim>\<open>validRounds.some(r => ...)\<close> for the court index \<open>i\<close>: it stops at the first round that
  has the team, and reading a team of a matchup that a round does not have throws.
\<close>

fun teamInSomeRound :: "string \<Rightarrow> nat \<Rightarrow> round list \<Rightarrow> error + bool" where
  "teamInSomeRound flt i [] = Inr False"
| "teamInSomeRound flt i (r # rs) =
     (if i < length (matchups r) then
        (let m = matchups r ! i
         in if teamA m = flt \<or> teamB m = flt then Inr True else teamInSomeRound flt i rs)
      else Inl TypeError)"

text \<open>\<^verbatim>\<open>courtIndices.filter(i => validRounds.some(...))\<close>.\<close>

fun filterCourts :: "string \<Rightarrow> round list \<Rightarrow> nat list \<Rightarrow> error + nat list" where
  "filterCourts flt vr [] = Inr []"
| "filterCourts flt vr (i # is) =
     (case teamInSomeRound flt i vr of
        Inl e \<Rightarrow> Inl e
      | Inr keep \<Rightarrow>
          (case filterCourts flt vr is of
             Inl e \<Rightarrow> Inl e
           | Inr rest \<Rightarrow> Inr (if keep then i # rest else rest)))"

text \<open>A \<^verbatim>\<open>map\<close> whose callback may throw: the first error ends it.\<close>

fun mapE :: "('a \<Rightarrow> error + 'b) \<Rightarrow> 'a list \<Rightarrow> error + 'b list" where
  "mapE f [] = Inr []"
| "mapE f (x # xs) =
     (case f x of
        Inl e \<Rightarrow> Inl e
      | Inr y \<Rightarrow> (case mapE f xs of Inl e \<Rightarrow> Inl e | Inr ys \<Rightarrow> Inr (y # ys)))"

text \<open>
  The constant of the same name in the cell callback: true in the last valid round, else
  whether some matchup of the next valid round has a team name.
\<close>

definition nextRoundHasData :: "round list \<Rightarrow> nat \<Rightarrow> bool" where
  "nextRoundHasData vr roundIdx =
     (let isLastRound = (roundIdx = length vr - 1)
      in isLastRound
         \<or> list_ex (\<lambda>nm. teamA nm \<noteq> [] \<or> teamB nm \<noteq> []) (matchups (vr ! (roundIdx + 1))))"

text \<open>
  One cell. When the round has no matchup at \<open>courtIdx\<close>, \<open>m\<close> is \<^verbatim>\<open>undefined\<close> and the first
  read of \<^verbatim>\<open>m.teamA\<close> throws, with or without a filter.
\<close>

definition renderCell :: "string \<Rightarrow> round list \<Rightarrow> nat \<Rightarrow> nat \<Rightarrow> error + cellView" where
  "renderCell flt vr courtIdx roundIdx =
     (let rnd = vr ! roundIdx
      in if courtIdx < length (matchups rnd) then
           (let m = matchups rnd ! courtIdx;
                showWinner = nextRoundHasData vr roundIdx;
                shown = (flt = [] \<or> teamA m = flt \<or> teamB m = flt)
            in Inr (if shown then renderMatchup m showWinner else NoMatches))
         else Inl TypeError)"

definition renderRow :: "string \<Rightarrow> round list \<Rightarrow> nat \<Rightarrow> error + courtRow" where
  "renderRow flt vr courtIdx =
     (let courtName = court (matchups (hd vr) ! courtIdx)
      in case mapE (renderCell flt vr courtIdx) [0..<length vr] of
           Inl e \<Rightarrow> Inl e
         | Inr cs \<Rightarrow> Inr \<lparr>rowClass = courtClass courtName, rowName = courtName, cells = cs\<rparr>)"

text \<open>
  \<^verbatim>\<open>renderAll\<close>, with the global \<^verbatim>\<open>activeTeamFilter\<close> as the argument \<open>flt\<close>. The result is
  what the call writes into the content element, or the error it throws before writing. (The
  scroll offsets that it saves and restores are left out.)
\<close>

definition renderAll :: "string \<Rightarrow> round list \<Rightarrow> error + content" where
  "renderAll flt rounds =
     (let validRounds = filter (\<lambda>r. time r \<noteq> []) rounds
      in if length validRounds = 0 then Inr SheetEmpty
         else
           (let allCourts = matchups (hd validRounds);
                courtIndices = [0..<length allCourts]
            in case (if flt \<noteq> [] then filterCourts flt validRounds courtIndices
                     else Inr courtIndices) of
                 Inl e \<Rightarrow> Inl e
               | Inr shown \<Rightarrow>
                   if flt \<noteq> [] \<and> length shown = 0 then Inr NoTeamMatches
                   else
                     (case mapE (renderRow flt validRounds) shown of
                        Inl e \<Rightarrow> Inl e
                      | Inr bodyRows \<Rightarrow> Inr (Schedule (map time validRounds) bodyRows))))"

section \<open>Fetching\<close>

text \<open>
  The response that the data source hands to the callback: a status, a table, and a list of
  error entries, each of which may be missing, as may the two message fields of an entry.
\<close>

record gerror =
  detailed_message :: "string option"
  message :: "string option"

record gresponse =
  status :: "string option"
  table :: "gtable option"
  errors :: "gerror list option"

text \<open>\<^verbatim>\<open>a || b\<close> on strings that may be missing: \<open>a\<close> unless it is missing or empty.\<close>

definition orElse :: "string option \<Rightarrow> string option \<Rightarrow> string option" where
  "orElse a b = (if a \<noteq> None \<and> a \<noteq> Some [] then a else b)"

text \<open>\<^verbatim>\<open>response?.errors?.[0]\<close>.\<close>

definition firstError :: "gresponse option \<Rightarrow> gerror option" where
  "firstError response =
     (case response of
        None \<Rightarrow> None
      | Some r \<Rightarrow> (case errors r of None \<Rightarrow> None | Some [] \<Rightarrow> None | Some (e # es) \<Rightarrow> Some e))"

definition errorDetail :: "gresponse option \<Rightarrow> string" where
  "errorDetail response =
     (case orElse (orElse (case firstError response of None \<Rightarrow> None | Some e \<Rightarrow> detailed_message e)
                          (case firstError response of None \<Rightarrow> None | Some e \<Rightarrow> message e))
                  (Some ''Unknown error from Google Sheets'') of
        Some detail \<Rightarrow> detail
      | None \<Rightarrow> [])"

text \<open>
  The promise of \<^verbatim>\<open>fetchSheetData\<close> is settled by the first of three events: the callback
  runs with a response, the timer fires, or the script element reports an error. The result is
  the value it resolves with (\<^verbatim>\<open>response.table\<close>, which may be missing) or the error it
  rejects with.
\<close>

datatype fetchEvent = Callback "gresponse option" | TimerFired | ScriptFailed

definition fetchSheetData :: "fetchEvent \<Rightarrow> error + gtable option" where
  "fetchSheetData ev =
     (case ev of
        Callback response \<Rightarrow>
          (case response of
             Some r \<Rightarrow>
               if status r = Some ''ok'' then Inr (table r)
               else Inl (Error (errorDetail response))
           | None \<Rightarrow> Inl (Error (errorDetail response)))
      | TimerFired \<Rightarrow> Inl (Error ''Request timed out'')
      | ScriptFailed \<Rightarrow> Inl (Error ''Network error''))"

section \<open>The load cycle\<close>

text \<open>
  The status line: the loading text, the update text with the wall-clock time, or the retry
  text; the dot's class follows from it (loading, live, error).
\<close>

datatype statusLine = Idle | Loading | Updated string | FailedToLoad

text \<open>
  The state that the load cycle reads and writes: the globals \<^verbatim>\<open>cachedRounds\<close> and
  \<^verbatim>\<open>activeTeamFilter\<close>, and of the page the value of the team select, the content element
  and the status line.
\<close>

record appState =
  cachedRounds :: "round list option"
  activeTeamFilter :: string
  selectValue :: string
  tournamentContent :: content
  statusText :: statusLine

text \<open>
  The set \<^verbatim>\<open>teams\<close> of \<^verbatim>\<open>collectTeams\<close>: the non-empty team names of all matchups. The code
  returns it as an array sorted by \<^verbatim>\<open>localeCompare\<close>; the order depends on the locale and is
  not modelled, and nothing below reads it.
\<close>

definition collectTeams :: "round list \<Rightarrow> string set" where
  "collectTeams rounds =
     set (filter (\<lambda>nm. nm \<noteq> [])
            (concat (map (\<lambda>r. concat (map (\<lambda>m. [teamA m, teamB m]) (matchups r))) rounds)))"

text \<open>
  \<^verbatim>\<open>populateTeamFilter\<close>: the options are rebuilt, the one equal to the previous value is
  marked selected, and the select then reports that value, or the empty value of the first
  option (All Teams) when no option is marked. The code writes each name unescaped between the
  double quotes of a \<^verbatim>\<open>value\<close> attribute and reads the select's value back from the parsed
  markup: the names are taken to come back as written, that is, to hold no double quote (which
  ends the attribute), no ampersand (which may start a character reference that the parser
  decodes), no carriage return (which the parser turns into a line feed) and no null character.
  A name with one of those is outside this definition.
\<close>

definition populateTeamFilter :: "string set \<Rightarrow> appState \<Rightarrow> appState" where
  "populateTeamFilter teams s =
     (let prev = selectValue s;
          now = (if prev \<in> teams then prev else [])
      in s\<lparr>selectValue := now, activeTeamFilter := now\<rparr>)"

text \<open>
  \<^verbatim>\<open>loadData\<close>, for the event that settles the fetch and the wall-clock text \<open>clock\<close> of the
  moment. Everything from the fetch on is inside the \<^verbatim>\<open>try\<close>: a rejected fetch, a missing
  table (whose \<^verbatim>\<open>cols\<close> cannot be read) and an error thrown by \<^verbatim>\<open>renderAll\<close> all end in the
  \<^verbatim>\<open>catch\<close>, each at the point the code has reached.
\<close>

definition loadFailed :: "error \<Rightarrow> appState \<Rightarrow> appState" where
  "loadFailed e s = s\<lparr>statusText := FailedToLoad, tournamentContent := CouldNotLoad e\<rparr>"

definition loadData :: "fetchEvent \<Rightarrow> string \<Rightarrow> appState \<Rightarrow> appState" where
  "loadData ev clock s0 =
     (let s = s0\<lparr>statusText := Loading\<rparr>
      in case fetchSheetData ev of
           Inl e \<Rightarrow> loadFailed e s
         | Inr None \<Rightarrow> loadFailed TypeError s
         | Inr (Some tbl) \<Rightarrow>
             (let rounds = parseRounds tbl;
                  s1 = s\<lparr>cachedRounds := Some rounds\<rparr>;
                  s2 = populateTeamFilter (collectTeams rounds) s1
              in case renderAll (activeTeamFilter s2) rounds of
                   Inl e \<Rightarrow> loadFailed e s2
                 | Inr c \<Rightarrow> s2\<lparr>tournamentContent := c, statusText := Updated clock\<rparr>))"

section \<open>What the headers say\<close>

text \<open>
  The statement of the header parser's result. The header at index \<open>i\<close> counts when
  \<open>i\<close> is 2 or more and the header matches the court pattern; it then names a court (group 1)
  and a field (group 2, trimmed and in lower case).
\<close>

definition headerField :: "string list \<Rightarrow> nat \<Rightarrow> (string \<times> string) option" where
  "headerField hs i =
     (if 2 \<le> i \<and> i < length hs
      then (case matchCourt (hs ! i) of
              None \<Rightarrow> None
            | Some (g1, g2) \<Rightarrow> Some (g1, toLowerCase (trim g2)))
      else None)"

text \<open>The last index whose header names the court \<open>cn\<close> and one of the fields \<open>fs\<close>.\<close>

definition lastField :: "string list \<Rightarrow> string \<Rightarrow> string list \<Rightarrow> nat option" where
  "lastField hs cn fs =
     (case filter (\<lambda>i. case headerField hs i of
                          None \<Rightarrow> False
                        | Some (g1, f) \<Rightarrow> g1 = cn \<and> f \<in> set fs)
                  (rev [0..<length hs]) of
        [] \<Rightarrow> None
      | i # _ \<Rightarrow> Some i)"

definition courtSpec :: "string list \<Rightarrow> string \<Rightarrow> courtDef" where
  "courtSpec hs cn =
     \<lparr>name = cn,
      ct_hasScores = (lastField hs cn [''score a''] \<noteq> None \<or> lastField hs cn [''score b''] \<noteq> None),
      teamACol = lastField hs cn [''team a'', ''a''],
      teamBCol = lastField hs cn [''team b'', ''b''],
      scoreACol = lastField hs cn [''score a''],
      scoreBCol = lastField hs cn [''score b'']\<rparr>"

text \<open>The court names that the headers give.\<close>

definition named :: "string list \<Rightarrow> string \<Rightarrow> bool" where
  "named hs cn \<longleftrightarrow> (\<exists>i f. headerField hs i = Some (cn, f))"

text \<open>
  The first index whose header names the court \<open>cn\<close> (the number of headers, when none does).
\<close>

definition firstHeader :: "string list \<Rightarrow> string \<Rightarrow> nat" where
  "firstHeader hs cn =
     (case filter (\<lambda>i. case headerField hs i of None \<Rightarrow> False | Some (g1, f) \<Rightarrow> g1 = cn)
                  [0..<length hs] of
        [] \<Rightarrow> length hs
      | i # _ \<Rightarrow> i)"

text \<open>
  The language of the pattern \<^verbatim>\<open>^(Court\s+\d+)\s+(.+)$\<close> with the \<^verbatim>\<open>i\<close> flag, written out:
  \<open>s\<close> is the word Court in any case, white space, digits, white space and a rest with no
  line terminator, each part non-empty; \<open>g1\<close> and \<open>g2\<close> are what the two groups hold.
\<close>

definition courtPattern :: "string \<Rightarrow> string \<Rightarrow> string \<Rightarrow> bool" where
  "courtPattern s g1 g2 \<longleftrightarrow>
     (\<exists>lit w1 ds w2.
        s = lit @ w1 @ ds @ w2 @ g2 \<and> g1 = lit @ w1 @ ds
        \<and> map canonicalize lit = ''COURT''
        \<and> w1 \<noteq> [] \<and> list_all isSpace w1
        \<and> ds \<noteq> [] \<and> list_all isDigit ds
        \<and> w2 \<noteq> [] \<and> list_all isSpace w2
        \<and> g2 \<noteq> [] \<and> \<not> list_ex isLineTerminator g2)"

text \<open>
  The hour of a 12-hour clock for an hour of the day, and the two digits of a minute.
\<close>

definition twelveHour :: "int \<Rightarrow> int" where
  "twelveHour h = (if h = 0 then 12 else if h \<le> 12 then h else h - 12)"

definition twoDigits :: "int \<Rightarrow> string" where
  "twoDigits m = [char_of (48 + nat m div 10), char_of (48 + nat m mod 10)]"

text \<open>
  The statement of the grid. The valid rounds; the court indices that get a row (all of them
  without a filter, else those where some valid round has the team); and the cell of court
  \<open>i\<close> in valid round \<open>j\<close>.
\<close>

definition valid :: "round list \<Rightarrow> round list" where
  "valid rounds = filter (\<lambda>r. time r \<noteq> []) rounds"

definition shownCourts :: "string \<Rightarrow> round list \<Rightarrow> nat list" where
  "shownCourts flt vr =
     filter (\<lambda>i. flt = []
                 \<or> list_ex (\<lambda>r. teamA (matchups r ! i) = flt \<or> teamB (matchups r ! i) = flt) vr)
       [0..<length (matchups (hd vr))]"

definition gridCell :: "string \<Rightarrow> round list \<Rightarrow> nat \<Rightarrow> nat \<Rightarrow> cellView" where
  "gridCell flt vr i j =
     (if flt = [] \<or> teamA (matchups (vr ! j) ! i) = flt \<or> teamB (matchups (vr ! j) ! i) = flt
      then renderMatchup (matchups (vr ! j) ! i)
             (j + 1 = length vr
              \<or> list_ex (\<lambda>nm. teamA nm \<noteq> [] \<or> teamB nm \<noteq> []) (matchups (vr ! (j + 1))))
      else NoMatches)"

definition gridRow :: "string \<Rightarrow> round list \<Rightarrow> nat \<Rightarrow> courtRow" where
  "gridRow flt vr i =
     \<lparr>rowClass = courtClass (court (matchups (hd vr) ! i)),
      rowName = court (matchups (hd vr) ! i),
      cells = map (gridCell flt vr i) [0..<length vr]\<rparr>"

text \<open>Every round has as many matchups as the first one: what \<^verbatim>\<open>parseRounds\<close> returns.\<close>

definition uniform :: "round list \<Rightarrow> bool" where
  "uniform rs = list_all (\<lambda>r. length (matchups r) = length (matchups (hd rs))) rs"

section \<open>Facts about numbers\<close>

lemma jsGreater_NaN_right: "jsGreater x NaN = False"
  by (cases x) simp_all

lemma jsGreater_irrefl: "jsGreater x x = False"
  by (cases x) simp_all

text \<open>Evaluating the conversions on literals, by rewriting with the definitions.\<close>

lemma bitLength_eval:
  "bitLength (numeral k) = Suc (bitLength (numeral k div 2))"
  "bitLength 0 = 0"
  "bitLength (Suc 0) = 1"
  by (simp_all add: bitLength.simps)

lemmas double_eval = toDouble_def floorLog2_def bitLength_eval roundHalfEven_def Let_def

lemmas number_eval = Number_def trim_def isSpace_def nonDecimalLiteral_def unsignedDecimal_def
  signedInteger_def radixDigits_def hexVal_def isDigit_def digitsVal_def digitVal_def double_eval

lemma Number_21: "Number ''21'' = Fin 21"
  by (simp add: number_eval)

lemma Number_15: "Number ''15'' = Fin 15"
  by (simp add: number_eval)

lemma Number_abc: "Number ''abc'' = NaN"
  by (simp add: number_eval)

section \<open>Winner marking in one matchup\<close>

text \<open>
  Claim C7, as the code has it. \<^verbatim>\<open>renderMatchup\<close> first returns the placeholder for a matchup
  with no team name on either side, whatever its scores. For a matchup with a team name on at
  least one side: each non-empty score string is converted with \<^verbatim>\<open>Number\<close> and shown, an
  empty one is not converted; side A is marked winner exactly when \<open>showWinner\<close> holds, both
  score strings are non-empty and A's number is strictly greater than B's; likewise side B;
  equal numbers, or an empty score string on either side, mark neither side, whatever
  \<open>showWinner\<close> is. Scores 21 and 15 mark side A and not side B; scores 15 and 15 mark
  neither.
\<close>

theorem renderMatchup_winner:
  "(teamA m = [] \<and> teamB m = [] \<longrightarrow> renderMatchup m sw = NoMatches)
   \<and> (teamA m \<noteq> [] \<or> teamB m \<noteq> [] \<longrightarrow>
         map_option score (sideA (renderMatchup m sw))
           = Some (if scoreA m = [] then None else Some (Number (scoreA m)))
       \<and> map_option score (sideB (renderMatchup m sw))
           = Some (if scoreB m = [] then None else Some (Number (scoreB m)))
       \<and> (winnerA (renderMatchup m sw) \<longleftrightarrow>
           sw \<and> scoreA m \<noteq> [] \<and> scoreB m \<noteq> [] \<and> jsGreater (Number (scoreA m)) (Number (scoreB m)))
       \<and> (winnerB (renderMatchup m sw) \<longleftrightarrow>
           sw \<and> scoreA m \<noteq> [] \<and> scoreB m \<noteq> [] \<and> jsGreater (Number (scoreB m)) (Number (scoreA m)))
       \<and> (Number (scoreA m) = Number (scoreB m) \<longrightarrow>
           \<not> winnerA (renderMatchup m sw) \<and> \<not> winnerB (renderMatchup m sw))
       \<and> (scoreA m = [] \<or> scoreB m = [] \<longrightarrow>
           \<not> winnerA (renderMatchup m sw) \<and> \<not> winnerB (renderMatchup m sw))
       \<and> (scoreA m = ''21'' \<and> scoreB m = ''15'' \<longrightarrow>
           winnerA (renderMatchup m True) \<and> \<not> winnerB (renderMatchup m True))
       \<and> (scoreA m = ''15'' \<and> scoreB m = ''15'' \<longrightarrow>
           \<not> winnerA (renderMatchup m True) \<and> \<not> winnerB (renderMatchup m True)))"
proof (intro conjI impI)
  assume "teamA m = [] \<and> teamB m = []"
  then show "renderMatchup m sw = NoMatches"
    by (simp add: renderMatchup_def)
next
  assume team: "teamA m \<noteq> [] \<or> teamB m \<noteq> []"
  show "map_option score (sideA (renderMatchup m sw))
          = Some (if scoreA m = [] then None else Some (Number (scoreA m)))"
    using team by (auto simp: renderMatchup_def Let_def)
  show "map_option score (sideB (renderMatchup m sw))
          = Some (if scoreB m = [] then None else Some (Number (scoreB m)))"
    using team by (auto simp: renderMatchup_def Let_def)
  have a: "winnerA (renderMatchup m w) \<longleftrightarrow>
          w \<and> scoreA m \<noteq> [] \<and> scoreB m \<noteq> [] \<and> jsGreater (Number (scoreA m)) (Number (scoreB m))"
    for w
    using team by (auto simp: renderMatchup_def Let_def)
  have b: "winnerB (renderMatchup m w) \<longleftrightarrow>
          w \<and> scoreA m \<noteq> [] \<and> scoreB m \<noteq> [] \<and> jsGreater (Number (scoreB m)) (Number (scoreA m))"
    for w
    using team by (auto simp: renderMatchup_def Let_def)
  show "winnerA (renderMatchup m sw) \<longleftrightarrow>
          sw \<and> scoreA m \<noteq> [] \<and> scoreB m \<noteq> [] \<and> jsGreater (Number (scoreA m)) (Number (scoreB m))"
    by (rule a)
  show "winnerB (renderMatchup m sw) \<longleftrightarrow>
          sw \<and> scoreA m \<noteq> [] \<and> scoreB m \<noteq> [] \<and> jsGreater (Number (scoreB m)) (Number (scoreA m))"
    by (rule b)
  show "\<not> winnerA (renderMatchup m sw)" if "Number (scoreA m) = Number (scoreB m)"
    using that by (simp add: a jsGreater_irrefl)
  show "\<not> winnerB (renderMatchup m sw)" if "Number (scoreA m) = Number (scoreB m)"
    using that by (simp add: b jsGreater_irrefl)
  show "\<not> winnerA (renderMatchup m sw)" if "scoreA m = [] \<or> scoreB m = []"
    using that by (auto simp: a)
  show "\<not> winnerB (renderMatchup m sw)" if "scoreA m = [] \<or> scoreB m = []"
    using that by (auto simp: b)
  show "winnerA (renderMatchup m True)" if "scoreA m = ''21'' \<and> scoreB m = ''15''"
    using that by (simp add: a Number_21 Number_15)
  show "\<not> winnerB (renderMatchup m True)" if "scoreA m = ''21'' \<and> scoreB m = ''15''"
    using that by (simp add: b Number_21 Number_15)
  show "\<not> winnerA (renderMatchup m True)" if "scoreA m = ''15'' \<and> scoreB m = ''15''"
    using that by (simp add: a Number_15)
  show "\<not> winnerB (renderMatchup m True)" if "scoreA m = ''15'' \<and> scoreB m = ''15''"
    using that by (simp add: b Number_15)
qed

text \<open>A matchup of Red against Blue, 21 to 15: side A is marked, side B is not.\<close>

theorem renderMatchup_winner_witness:
  "teamA \<lparr>court = ''Court 1'', hasScores = True, teamA = ''Red'', teamB = ''Blue'',
           scoreA = ''21'', scoreB = ''15''\<rparr> \<noteq> []
   \<and> winnerA (renderMatchup \<lparr>court = ''Court 1'', hasScores = True, teamA = ''Red'',
        teamB = ''Blue'', scoreA = ''21'', scoreB = ''15''\<rparr> True)
   \<and> \<not> winnerB (renderMatchup \<lparr>court = ''Court 1'', hasScores = True, teamA = ''Red'',
        teamB = ''Blue'', scoreA = ''21'', scoreB = ''15''\<rparr> True)"
proof -
  let ?m = "\<lparr>court = ''Court 1'', hasScores = True, teamA = ''Red'', teamB = ''Blue'',
             scoreA = ''21'', scoreB = ''15''\<rparr>"
  have h: "teamA ?m \<noteq> [] \<or> teamB ?m \<noteq> []" by simp
  from renderMatchup_winner [of ?m True] h
  have "winnerA (renderMatchup ?m True) \<and> \<not> winnerB (renderMatchup ?m True)"
    by (simp add: Number_21 Number_15)
  then show ?thesis by simp
qed

text \<open>
  The claim as written fails on a matchup with no team names: A's score is the higher one,
  \<open>showWinner\<close> holds, and the cell is the placeholder, with no side marked.
\<close>

theorem renderMatchup_winner_counterexample:
  "jsGreater (Number ''21'') (Number ''15'')
   \<and> renderMatchup \<lparr>court = ''Court 1'', hasScores = True, teamA = [], teamB = [],
        scoreA = ''21'', scoreB = ''15''\<rparr> True = NoMatches
   \<and> \<not> winnerA (renderMatchup \<lparr>court = ''Court 1'', hasScores = True, teamA = [],
        teamB = [], scoreA = ''21'', scoreB = ''15''\<rparr> True)"
  by (simp add: renderMatchup_def Number_21 Number_15)

text \<open>
  Claim C10. When a score string is non-empty and \<^verbatim>\<open>Number\<close> makes NaN of it, neither side
  is marked winner, whatever \<open>showWinner\<close> and the other score are.
\<close>

theorem renderMatchup_NaN_no_winner:
  assumes "(scoreA m \<noteq> [] \<and> Number (scoreA m) = NaN) \<or> (scoreB m \<noteq> [] \<and> Number (scoreB m) = NaN)"
  shows "\<not> winnerA (renderMatchup m sw) \<and> \<not> winnerB (renderMatchup m sw)"
  using assms by (auto simp: renderMatchup_def Let_def jsGreater_NaN_right)

theorem renderMatchup_NaN_no_winner_witness:
  "scoreA \<lparr>court = ''Court 1'', hasScores = True, teamA = ''Red'', teamB = ''Blue'',
           scoreA = ''abc'', scoreB = ''15''\<rparr> \<noteq> []
   \<and> scoreB \<lparr>court = ''Court 1'', hasScores = True, teamA = ''Red'', teamB = ''Blue'',
           scoreA = ''abc'', scoreB = ''15''\<rparr> \<noteq> []
   \<and> Number ''abc'' = NaN
   \<and> \<not> winnerA (renderMatchup \<lparr>court = ''Court 1'', hasScores = True, teamA = ''Red'',
        teamB = ''Blue'', scoreA = ''abc'', scoreB = ''15''\<rparr> True)
   \<and> \<not> winnerB (renderMatchup \<lparr>court = ''Court 1'', hasScores = True, teamA = ''Red'',
        teamB = ''Blue'', scoreA = ''abc'', scoreB = ''15''\<rparr> True)"
proof -
  let ?m = "\<lparr>court = ''Court 1'', hasScores = True, teamA = ''Red'', teamB = ''Blue'',
             scoreA = ''abc'', scoreB = ''15''\<rparr>"
  have h: "(scoreA ?m \<noteq> [] \<and> Number (scoreA ?m) = NaN) \<or> (scoreB ?m \<noteq> [] \<and> Number (scoreB ?m) = NaN)"
    by (simp add: Number_abc)
  from renderMatchup_NaN_no_winner [OF h, of True] show ?thesis
    by (simp add: Number_abc)
qed

section \<open>The header parser\<close>

lemma courtMap_snoc: "courtMap (hs @ [h]) = headerStep (length hs, h) (courtMap hs)"
  by (simp add: courtMap_def enumerate_append_eq)

lemma headerField_snoc_old: "i < length hs \<Longrightarrow> headerField (hs @ [h]) i = headerField hs i"
  by (simp add: headerField_def nth_append)

lemma headerField_out: "length hs \<le> i \<Longrightarrow> headerField hs i = None"
  by (simp add: headerField_def)

lemma headerField_snoc_new:
  "headerField (hs @ [h]) (length hs) =
     (if 2 \<le> length hs then (case matchCourt h of None \<Rightarrow> None
         | Some (g1, g2) \<Rightarrow> Some (g1, toLowerCase (trim g2))) else None)"
  by (simp add: headerField_def)

lemma lastField_snoc:
  "lastField (hs @ [h]) cn fs =
     (case headerField (hs @ [h]) (length hs) of
        None \<Rightarrow> lastField hs cn fs
      | Some (g1, f) \<Rightarrow> if g1 = cn \<and> f \<in> set fs then Some (length hs) else lastField hs cn fs)"
proof -
  have eq: "filter (\<lambda>i. case headerField (hs @ [h]) i of None \<Rightarrow> False
                         | Some (g1, f) \<Rightarrow> g1 = cn \<and> f \<in> set fs) (rev [0..<length hs])
          = filter (\<lambda>i. case headerField hs i of None \<Rightarrow> False
                         | Some (g1, f) \<Rightarrow> g1 = cn \<and> f \<in> set fs) (rev [0..<length hs])"
    by (rule filter_cong) (auto simp: headerField_snoc_old)
  show ?thesis
    by (simp add: lastField_def eq split: option.splits prod.splits)
qed

lemma lastField_None_iff:
  "lastField hs cn fs = None \<longleftrightarrow> (\<forall>i f. headerField hs i = Some (cn, f) \<longrightarrow> f \<notin> set fs)"
proof -
  have "lastField hs cn fs = None \<longleftrightarrow>
        (\<forall>i < length hs. \<not> (case headerField hs i of None \<Rightarrow> False | Some (g1, f) \<Rightarrow> g1 = cn \<and> f \<in> set fs))"
  proof -
    have c: "(case xs of [] \<Rightarrow> None | i # _ \<Rightarrow> Some i) = None \<longleftrightarrow> xs = []" for xs :: "nat list"
      by (cases xs) simp_all
    show ?thesis
      unfolding lastField_def c filter_empty_conv by auto
  qed
  also have "\<dots> \<longleftrightarrow> (\<forall>i f. headerField hs i = Some (cn, f) \<longrightarrow> f \<notin> set fs)"
    apply (auto split: option.splits)
    by (metis headerField_out not_le_imp_less option.distinct(1))
  finally show ?thesis .
qed

lemma courtSpec_unnamed:
  "\<not> named hs cn \<Longrightarrow> courtSpec hs cn = \<lparr>name = cn, ct_hasScores = False, teamACol = None,
                                     teamBCol = None, scoreACol = None, scoreBCol = None\<rparr>"
  unfolding courtSpec_def named_def
  by (simp add: lastField_None_iff)

lemma named_snoc:
  "named (hs @ [h]) cn \<longleftrightarrow> named hs cn \<or> (\<exists>f. headerField (hs @ [h]) (length hs) = Some (cn, f))"
  unfolding named_def
  apply (auto simp: headerField_snoc_old)
  subgoal for i f
    apply (cases "i < length hs")
     apply (auto simp: headerField_snoc_old)
    apply (cases "i = length hs")
     apply auto
    using headerField_out[of "hs @ [h]" i] by simp
  subgoal for i f
    apply (cases "i < length hs")
    apply (metis headerField_snoc_old)
    using headerField_out[of "hs" i] by simp
  done

lemma matchCourt_Nil: "matchCourt [] = None"
  by (simp add: matchCourt_def)

lemma setField_courtSpec:
  assumes "headerField (hs @ [h]) (length hs) = Some (g1, f)"
  shows "setField f (length hs) (courtSpec hs g1) = courtSpec (hs @ [h]) g1"
proof -
  have L: "lastField (hs @ [h]) g1 fs = (if f \<in> set fs then Some (length hs) else lastField hs g1 fs)" for fs
    by (simp add: lastField_snoc assms)
  consider "f = ''team a'' \<or> f = ''a''" | "f = ''team b'' \<or> f = ''b''" | "f = ''score a''" | "f = ''score b''"
    | "f \<notin> set [''team a'', ''a'', ''team b'', ''b'', ''score a'', ''score b'']"
    by auto
  then show ?thesis
  proof cases
    case 1 then show ?thesis by (auto simp: setField_def courtSpec_def L)
  next
    case 2 then show ?thesis by (auto simp: setField_def courtSpec_def L)
  next
    case 3 then show ?thesis by (simp add: setField_def courtSpec_def L)
  next
    case 4 then show ?thesis by (simp add: setField_def courtSpec_def L)
  next
    case 5 then show ?thesis by (simp add: setField_def courtSpec_def L)
  qed
qed

lemma map_of_courtMap:
  "map_of (courtMap hs) cn = (if named hs cn then Some (courtSpec hs cn) else None)"
proof (induction hs arbitrary: cn rule: rev_induct)
  case Nil
  then show ?case by (simp add: courtMap_def named_def headerField_def)
next
  case (snoc h hs)
  show ?case
  proof (cases "headerField (hs @ [h]) (length hs)")
    case None
    then have skip: "length hs < 2 \<or> h = [] \<or> matchCourt h = None"
      by (auto simp: headerField_snoc_new split: if_splits option.splits)
    have step: "courtMap (hs @ [h]) = courtMap hs"
      using skip by (auto simp: courtMap_snoc headerStep_def Let_def)
    have n: "named (hs @ [h]) cn = named hs cn"
      by (simp add: named_snoc None)
    have c: "courtSpec (hs @ [h]) cn = courtSpec hs cn"
      by (simp add: courtSpec_def lastField_snoc None)
    show ?thesis by (simp add: step n c snoc.IH)
  next
    case (Some p)
    obtain g1 f where p: "p = (g1, f)" by (cases p)
    from Some p obtain g2 where len: "2 \<le> length hs" and m: "matchCourt h = Some (g1, g2)"
      and f: "f = toLowerCase (trim g2)"
      by (auto simp: headerField_snoc_new split: if_splits option.splits)
    have hne: "h \<noteq> []" using m matchCourt_Nil by auto
    have old: "(case map_of (courtMap hs) g1 of
                  None \<Rightarrow> \<lparr>name = g1, ct_hasScores = False, teamACol = None,
                            teamBCol = None, scoreACol = None, scoreBCol = None\<rparr>
                | Some c0 \<Rightarrow> c0) = courtSpec hs g1"
      by (simp add: snoc.IH courtSpec_unnamed)
    have step: "courtMap (hs @ [h])
                = AList.update g1 (setField f (length hs) (courtSpec hs g1)) (courtMap hs)"
      using len hne by (simp add: courtMap_snoc headerStep_def m f [symmetric] old Let_def)
    have sf: "setField f (length hs) (courtSpec hs g1) = courtSpec (hs @ [h]) g1"
      using Some p by (simp add: setField_courtSpec)
    show ?thesis
    proof (cases "cn = g1")
      case True
      have "named (hs @ [h]) g1" using Some p by (auto simp: named_snoc)
      then show ?thesis by (simp add: True step sf AList.update_conv')
    next
      case False
      have n: "named (hs @ [h]) cn = named hs cn"
        using False by (simp add: named_snoc Some p)
      have c: "courtSpec (hs @ [h]) cn = courtSpec hs cn"
        using False by (simp add: courtSpec_def lastField_snoc Some p)
      show ?thesis using False by (simp add: step AList.update_conv' n c snoc.IH)
    qed
  qed
qed

lemma distinct_courtMap: "distinct (map fst (courtMap hs))"
proof (induction hs rule: rev_induct)
  case Nil
  then show ?case by (simp add: courtMap_def)
next
  case (snoc h hs)
  then show ?case
    by (simp add: courtMap_snoc headerStep_def Let_def AList.distinct_update split: option.splits prod.splits)
qed

lemma in_courtMap_iff: "(cn, c) \<in> set (courtMap hs) \<longleftrightarrow> named hs cn \<and> c = courtSpec hs cn"
proof -
  have "(cn, c) \<in> set (courtMap hs) \<longleftrightarrow> map_of (courtMap hs) cn = Some c"
    by (rule map_of_eq_Some_iff [OF distinct_courtMap, symmetric])
  then show ?thesis by (auto simp: map_of_courtMap)
qed

lemma set_snd_courtMap: "set (map snd (courtMap hs)) = {c. named hs (name c) \<and> c = courtSpec hs (name c)}"
proof (rule set_eqI)
  fix c
  have n: "name (courtSpec hs cn) = cn" for cn by (simp add: courtSpec_def)
  have "c \<in> set (map snd (courtMap hs)) \<longleftrightarrow> (\<exists>cn. (cn, c) \<in> set (courtMap hs))"
    by force
  also have "\<dots> \<longleftrightarrow> (\<exists>cn. named hs cn \<and> c = courtSpec hs cn)"
    by (simp add: in_courtMap_iff)
  also have "\<dots> \<longleftrightarrow> named hs (name c) \<and> c = courtSpec hs (name c)"
    using n by metis
  finally show "c \<in> set (map snd (courtMap hs)) \<longleftrightarrow> c \<in> {c. named hs (name c) \<and> c = courtSpec hs (name c)}"
    by simp
qed

lemma map_name_courtMap: "map name (map snd (courtMap hs)) = map fst (courtMap hs)"
proof -
  have "name (snd p) = fst p" if "p \<in> set (courtMap hs)" for p
    using that in_courtMap_iff [of "fst p" "snd p" hs] by (simp add: courtSpec_def)
  then show ?thesis by simp
qed

lemma set_parseCourts: "set (parseCourts hs) = {c. named hs (name c) \<and> c = courtSpec hs (name c)}"
  by (simp add: parseCourts_def set_snd_courtMap [simplified])

lemma names_parseCourts: "set (map name (parseCourts hs)) = {cn. named hs cn}"
proof -
  have n: "name (courtSpec hs cn) = cn" for cn by (simp add: courtSpec_def)
  show ?thesis
    apply (auto simp: set_parseCourts)
    by (metis (mono_tags, lifting) image_iff mem_Collect_eq n)
qed

lemma distinct_names_parseCourts: "distinct (map name (parseCourts hs))"
proof -
  have "distinct (map name (map snd (courtMap hs)))"
    by (simp only: map_name_courtMap distinct_courtMap)
  then have "distinct (map snd (courtMap hs)) \<and> inj_on name (set (map snd (courtMap hs)))"
    by (simp only: distinct_map)
  then have "distinct (parseCourts hs) \<and> inj_on name (set (parseCourts hs))"
    by (simp add: parseCourts_def)
  then show ?thesis by (simp only: distinct_map)
qed

lemma sorted_parseCourts: "sorted (map (\<lambda>c. courtNumber (name c)) (parseCourts hs))"
  by (simp add: parseCourts_def)

lemma parseCourts_skip: "parseCourts (a # b # rest) = parseCourts (a' # b' # rest)"
  by (simp add: parseCourts_def courtMap_def headerStep_def)

lemma bitLength_le: "n < 2 ^ k \<Longrightarrow> bitLength n \<le> k"
proof (induction k arbitrary: n)
  case 0
  then show ?case by (simp add: bitLength.simps)
next
  case (Suc k)
  then have "n div 2 < 2 ^ k" by auto
  then have "bitLength (n div 2) \<le> k" by (rule Suc.IH)
  then show ?case by (subst bitLength.simps) simp
qed

lemma roundHalfEven_1: "roundHalfEven a 1 = a" "roundHalfEven a (Suc 0) = a"
  by (simp_all add: roundHalfEven_def)

lemma floorLog2_le: "floorLog2 n 1 \<le> int (bitLength n) - 1"
  by (simp add: floorLog2_def Let_def bitLength_eval)

lemma toDouble_exact:
  assumes "n < 2 ^ 53"
  shows "toDouble n 1 = Fin (of_nat n)"
proof (cases "n = 0")
  case True
  then show ?thesis by (simp add: toDouble_def)
next
  case False
  define e where "e = max (floorLog2 n 1 - 52) (- 1074)"
  have "bitLength n \<le> 53" using assms by (rule bitLength_le)
  then have e0: "e \<le> 0" using floorLog2_le [of n] by (simp add: e_def)
  have small: "(of_nat n :: rat) < 2 ^ 1024"
  proof -
    have "(of_nat n :: rat) < of_nat (2 ^ 53)" using assms by (simp only: of_nat_less_iff)
    also have "\<dots> \<le> 2 ^ 1024" by simp
    finally show ?thesis .
  qed
  define X :: rat where
    "X = (if 0 \<le> e then of_nat (roundHalfEven n (1 * 2 ^ nat e) * 2 ^ nat e)
          else of_nat (roundHalfEven (n * 2 ^ nat (- e)) 1) / of_nat (2 ^ nat (- e)))"
  have td: "toDouble n 1 = (if 2 ^ 1024 \<le> X then PosInf else Fin X)"
    using False by (simp add: toDouble_def Let_def e_def X_def)
  have X: "X = of_nat n"
    using e0 by (cases "e = 0") (simp_all add: X_def roundHalfEven_1)
  show ?thesis
    unfolding td X using small by simp
qed

lemma courtNumber_exact:
  assumes "courtInteger s < 2 ^ 53"
  shows "courtNumber s = enat (courtInteger s)"
proof (cases "firstDigits s = []")
  case True
  then show ?thesis by (simp add: courtNumber_def courtInteger_def digitsVal_def zero_enat_def)
next
  case False
  have td: "toDouble (digitsVal (firstDigits s)) 1 = Fin (of_nat (digitsVal (firstDigits s)))"
    using assms unfolding courtInteger_def by (rule toDouble_exact)
  show ?thesis
    unfolding courtNumber_def Let_def parseIntDigits_def courtInteger_def td
    using False by simp
qed

lemma space_not_digit: "isSpace ch \<Longrightarrow> \<not> isDigit ch"
  by (auto simp: isSpace_def isDigit_def)

lemma takeWhile_run:
  assumes "list_all P xs" and "ys \<noteq> []" and "\<not> P (hd ys)"
  shows "takeWhile P (xs @ ys) = xs" and "dropWhile P (xs @ ys) = ys"
proof -
  from assms obtain y ys' where ys: "ys = y # ys'" and ny: "\<not> P y" by (cases ys) auto
  from assms(1) have all: "\<forall>x \<in> set xs. P x" by (simp add: list_all_iff)
  show "takeWhile P (xs @ ys) = xs" using all ny by (simp add: ys takeWhile_append2)
  show "dropWhile P (xs @ ys) = ys" using all ny by (simp add: ys dropWhile_append2)
qed

lemma matchCourt_sound:
  assumes "matchCourt l = Some (g1, g2)"
  shows "courtPattern l g1 g2"
proof -
  define lit where "lit = take 5 l"
  define r0 where "r0 = drop 5 l"
  define w1 where "w1 = takeWhile isSpace r0"
  define r1 where "r1 = dropWhile isSpace r0"
  define ds where "ds = takeWhile isDigit r1"
  define r2 where "r2 = dropWhile isDigit r1"
  define w2 where "w2 = takeWhile isSpace r2"
  define r3 where "r3 = dropWhile isSpace r2"
  note defs = lit_def r0_def w1_def r1_def ds_def r2_def w2_def r3_def
  have l: "l = lit @ w1 @ ds @ w2 @ r3"
    by (simp add: defs)
  have sp1: "list_all isSpace w1" and dg: "list_all isDigit ds" and sp2: "list_all isSpace w2"
    by (auto simp: defs list_all_iff dest: set_takeWhileD)
  from assms have ok: "map canonicalize lit = ''COURT''" "w1 \<noteq> []" "ds \<noteq> []" "w2 \<noteq> []"
    by (auto simp: matchCourt_def Let_def defs [symmetric] split: if_splits)
  show ?thesis
  proof (cases "r3 = []")
    case False
    with assms ok have "\<not> list_ex isLineTerminator r3" "g1 = lit @ w1 @ ds" "g2 = r3"
      by (auto simp: matchCourt_def Let_def defs [symmetric] split: if_splits)
    with l ok sp1 dg sp2 False show ?thesis
      unfolding courtPattern_def
      by (intro exI [of _ lit] exI [of _ w1] exI [of _ ds] exI [of _ w2]) simp
  next
    case True
    with assms ok have b: "2 \<le> length w2" "\<not> isLineTerminator (last w2)" "g1 = lit @ w1 @ ds" "g2 = [last w2]"
      by (auto simp: matchCourt_def Let_def defs [symmetric] split: if_splits)
    have w2: "w2 = butlast w2 @ [last w2]" using ok by simp
    have bl: "butlast w2 \<noteq> []" using b(1) by (cases w2 rule: rev_cases) auto
    have sp2': "list_all isSpace (butlast w2)" using sp2 by (auto simp: list_all_iff dest: in_set_butlastD)
    have l': "l = lit @ w1 @ ds @ butlast w2 @ g2"
      using l True w2 b(4) by simp
    from l' b ok sp1 dg sp2' bl show ?thesis
      unfolding courtPattern_def by (intro exI [of _ lit] exI [of _ w1] exI [of _ ds] exI [of _ "butlast w2"]) simp
  qed
qed

lemma matchCourt_complete:
  assumes "courtPattern l g1 g2"
  shows "\<exists>g2'. matchCourt l = Some (g1, g2') \<and> length g2' \<le> length g2"
proof -
  from assms obtain lit w1 ds w2 where
    all: "l = lit @ w1 @ ds @ w2 @ g2 \<and> g1 = lit @ w1 @ ds
        \<and> map canonicalize lit = ''COURT''
        \<and> w1 \<noteq> [] \<and> list_all isSpace w1
        \<and> ds \<noteq> [] \<and> list_all isDigit ds
        \<and> w2 \<noteq> [] \<and> list_all isSpace w2
        \<and> g2 \<noteq> [] \<and> \<not> list_ex isLineTerminator g2"
    unfolding courtPattern_def by (elim exE)
  then have l: "l = lit @ w1 @ ds @ w2 @ g2" and g1: "g1 = lit @ w1 @ ds"
    and lit: "map canonicalize lit = ''COURT''"
    and w1: "w1 \<noteq> []" "list_all isSpace w1" and ds: "ds \<noteq> []" "list_all isDigit ds"
    and w2: "w2 \<noteq> []" "list_all isSpace w2" and g2: "g2 \<noteq> []" "\<not> list_ex isLineTerminator g2"
    by simp_all
  from lit have "length (map canonicalize lit) = length ''COURT''" by (rule arg_cong)
  then have len: "length lit = 5" by simp
  have t: "take 5 l = lit" and d: "drop 5 l = w1 @ ds @ w2 @ g2" using len by (simp_all add: l)
  have hd_ds: "\<not> isSpace (hd (ds @ w2 @ g2))"
    using ds space_not_digit by (cases ds) (auto simp: list_all_iff)
  have hd_w2: "\<not> isDigit (hd (w2 @ g2))"
    using w2 space_not_digit by (cases w2) (auto simp: list_all_iff)
  have a1: "takeWhile isSpace (w1 @ ds @ w2 @ g2) = w1" "dropWhile isSpace (w1 @ ds @ w2 @ g2) = ds @ w2 @ g2"
    using takeWhile_run [OF w1(2) _ hd_ds] ds by simp_all
  have a2: "takeWhile isDigit (ds @ w2 @ g2) = ds" "dropWhile isDigit (ds @ w2 @ g2) = w2 @ g2"
    using takeWhile_run [OF ds(2) _ hd_w2] w2 by simp_all
  have all2: "\<forall>x \<in> set w2. isSpace x" using w2 by (simp add: list_all_iff)
  have a3: "takeWhile isSpace (w2 @ g2) = w2 @ takeWhile isSpace g2"
           "dropWhile isSpace (w2 @ g2) = dropWhile isSpace g2"
    using all2 by (simp_all add: takeWhile_append2 dropWhile_append2)
  have noLT: "\<not> list_ex isLineTerminator (dropWhile isSpace g2)"
    using g2(2) by (auto simp: list_ex_iff dest: set_dropWhileD)
  show ?thesis
  proof (cases "dropWhile isSpace g2 = []")
    case False
    have "length (dropWhile isSpace g2) \<le> length g2" by (rule length_dropWhile_le)
    then show ?thesis using False noLT lit w1 ds w2
      by (simp add: matchCourt_def Let_def t d a1 a2 a3 g1)
  next
    case True
    then have tw: "takeWhile isSpace g2 = g2"
      by (metis append_Nil2 takeWhile_dropWhile_id)
    have last: "last (w2 @ g2) = last g2" using g2 by simp
    have "\<not> isLineTerminator (last g2)" using g2 by (auto simp: list_ex_iff)
    moreover have "2 \<le> length (w2 @ g2)" using w2 g2 by (cases w2; cases g2) auto
    moreover have "1 \<le> length g2" using g2 by (cases g2) auto
    ultimately show ?thesis using True lit w1 ds w2 g2
      by (simp add: matchCourt_def Let_def t d a1 a2 a3 g1 tw)
  qed
qed

text \<open>The order of the courts: first headers, then the stable sort.\<close>

lemma in_set_nonempty: "x \<in> set xs \<Longrightarrow> xs \<noteq> []"
  by auto

lemma firstHeader_snoc:
  "firstHeader (hs @ [h]) cn =
     (if named hs cn then firstHeader hs cn
      else (case headerField (hs @ [h]) (length hs) of
              None \<Rightarrow> Suc (length hs)
            | Some (g1, f) \<Rightarrow> if g1 = cn then length hs else Suc (length hs)))"
proof -
  let ?P = "\<lambda>hs i. case headerField hs i of None \<Rightarrow> False | Some (g1, f) \<Rightarrow> g1 = cn"
  have eq: "filter (?P (hs @ [h])) [0..<length hs] = filter (?P hs) [0..<length hs]"
    by (rule filter_cong) (auto simp: headerField_snoc_old)
  have nm: "named hs cn \<longleftrightarrow> filter (?P hs) [0..<length hs] \<noteq> []"
  proof
    assume "named hs cn"
    then obtain i f where i: "headerField hs i = Some (cn, f)" unfolding named_def by blast
    then have "i < length hs" using headerField_out [of hs i] by (cases "i < length hs") auto
    with i have "i \<in> set (filter (?P hs) [0..<length hs])" by simp
    then show "filter (?P hs) [0..<length hs] \<noteq> []" by (rule in_set_nonempty)
  next
    assume "filter (?P hs) [0..<length hs] \<noteq> []"
    then obtain i where "i \<in> set (filter (?P hs) [0..<length hs])" by (cases "filter (?P hs) [0..<length hs]") auto
    then have "?P hs i" by simp
    then show "named hs cn" unfolding named_def by (auto split: option.splits)
  qed
  show ?thesis
  proof (cases "named hs cn")
    case True
    then obtain i js where "filter (?P hs) [0..<length hs] = i # js"
      using nm by (cases "filter (?P hs) [0..<length hs]") auto
    then show ?thesis using True by (simp add: firstHeader_def eq)
  next
    case False
    then have "filter (?P hs) [0..<length hs] = []" using nm by simp
    then show ?thesis using False
      by (simp add: firstHeader_def eq split: option.splits)
  qed
qed

lemma firstHeader_less: "named hs cn \<Longrightarrow> firstHeader hs cn < length hs"
proof (induction hs rule: rev_induct)
  case Nil
  then show ?case by (simp add: named_def headerField_def)
next
  case (snoc h hs)
  show ?case
  proof (cases "named hs cn")
    case True
    then show ?thesis using snoc.IH by (simp add: firstHeader_snoc)
  next
    case False
    with snoc.prems obtain f where "headerField (hs @ [h]) (length hs) = Some (cn, f)"
      by (auto simp: named_snoc)
    then show ?thesis using False by (simp add: firstHeader_snoc)
  qed
qed

lemma keys_courtMap: "set (map fst (courtMap hs)) = {cn. named hs cn}"
proof -
  have "cn \<in> set (map fst (courtMap hs)) \<longleftrightarrow> named hs cn" for cn
  proof -
    have "cn \<in> set (map fst (courtMap hs)) \<longleftrightarrow> (\<exists>c. (cn, c) \<in> set (courtMap hs))" by force
    then show ?thesis by (simp add: in_courtMap_iff)
  qed
  then show ?thesis by blast
qed

lemma keys_courtMap_snoc:
  "map fst (courtMap (hs @ [h])) =
     (case headerField (hs @ [h]) (length hs) of
        None \<Rightarrow> map fst (courtMap hs)
      | Some (g1, f) \<Rightarrow> if named hs g1 then map fst (courtMap hs) else map fst (courtMap hs) @ [g1])"
proof (cases "headerField (hs @ [h]) (length hs)")
  case None
  then have skip: "length hs < 2 \<or> h = [] \<or> matchCourt h = None"
    by (auto simp: headerField_snoc_new split: if_splits option.splits)
  have "courtMap (hs @ [h]) = courtMap hs"
    using skip by (auto simp: courtMap_snoc headerStep_def Let_def)
  then show ?thesis by (simp add: None)
next
  case (Some p)
  obtain g1 f where p: "p = (g1, f)" by (cases p)
  from Some p obtain g2 where len: "2 \<le> length hs" and m: "matchCourt h = Some (g1, g2)"
    by (auto simp: headerField_snoc_new split: if_splits option.splits)
  have hne: "h \<noteq> []" using m matchCourt_Nil by auto
  obtain v where step: "courtMap (hs @ [h]) = AList.update g1 v (courtMap hs)"
    using len hne by (simp add: courtMap_snoc headerStep_def m Let_def)
  have k: "g1 \<in> fst ` set (courtMap hs) \<longleftrightarrow> named hs g1"
    using keys_courtMap [of hs] by auto
  show ?thesis
    by (simp add: Some p step AList.update_keys k)
qed

lemma courtMap_header_order:
  "sorted_wrt (\<lambda>a b. firstHeader hs a < firstHeader hs b) (map fst (courtMap hs))"
proof (induction hs rule: rev_induct)
  case Nil
  then show ?case by (simp add: courtMap_def)
next
  case (snoc h hs)
  have old: "sorted_wrt (\<lambda>a b. firstHeader (hs @ [h]) a < firstHeader (hs @ [h]) b) (map fst (courtMap hs))"
  proof (rule sorted_wrt_mono_rel [OF _ snoc.IH])
    fix x y
    assume "x \<in> set (map fst (courtMap hs))" "y \<in> set (map fst (courtMap hs))"
      and l: "firstHeader hs x < firstHeader hs y"
    then have "named hs x" "named hs y" by (simp_all only: keys_courtMap mem_Collect_eq)
    then show "firstHeader (hs @ [h]) x < firstHeader (hs @ [h]) y"
      using l by (simp add: firstHeader_snoc)
  qed
  show ?case
  proof (cases "headerField (hs @ [h]) (length hs)")
    case None
    then show ?thesis using old by (simp add: keys_courtMap_snoc)
  next
    case (Some p)
    obtain g1 f where p: "p = (g1, f)" by (cases p)
    show ?thesis
    proof (cases "named hs g1")
      case True
      then show ?thesis using old by (simp add: keys_courtMap_snoc Some p)
    next
      case False
      have new: "firstHeader (hs @ [h]) g1 = length hs"
        using False by (simp add: firstHeader_snoc Some p)
      have "\<forall>x \<in> set (map fst (courtMap hs)). firstHeader (hs @ [h]) x < firstHeader (hs @ [h]) g1"
      proof
        fix x assume "x \<in> set (map fst (courtMap hs))"
        then have n: "named hs x" by (simp only: keys_courtMap mem_Collect_eq)
        then have "firstHeader (hs @ [h]) x = firstHeader hs x" by (simp add: firstHeader_snoc)
        then show "firstHeader (hs @ [h]) x < firstHeader (hs @ [h]) g1"
          using firstHeader_less [OF n] by (simp only: new)
      qed
      then show ?thesis using old False
        by (simp add: keys_courtMap_snoc Some p sorted_wrt_append)
    qed
  qed
qed

lemma insort_key_wrt:
  fixes f :: "'a \<Rightarrow> 'b :: linorder"
  assumes "sorted (map f ys)"
    and "sorted_wrt (\<lambda>a b. f a < f b \<or> (f a = f b \<and> R a b)) ys"
    and "\<forall>y \<in> set ys. R x y"
  shows "sorted_wrt (\<lambda>a b. f a < f b \<or> (f a = f b \<and> R a b)) (insort_key f x ys)"
  using assms
proof (induction ys)
  case Nil
  then show ?case by simp
next
  case (Cons y ys)
  show ?case
  proof (cases "f x \<le> f y")
    case True
    have "\<forall>z \<in> set (y # ys). f x < f z \<or> (f x = f z \<and> R x z)"
    proof
      fix z assume z: "z \<in> set (y # ys)"
      then have "f y \<le> f z" using Cons.prems(1) by auto
      then have "f x \<le> f z" using True by simp
      moreover have "R x z" using Cons.prems(3) z by blast
      ultimately show "f x < f z \<or> (f x = f z \<and> R x z)" by auto
    qed
    then show ?thesis using True Cons.prems(2) by simp
  next
    case False
    have ih: "sorted_wrt (\<lambda>a b. f a < f b \<or> (f a = f b \<and> R a b)) (insort_key f x ys)"
      using Cons.prems by (intro Cons.IH) simp_all
    have "\<forall>z \<in> set (insort_key f x ys). f y < f z \<or> (f y = f z \<and> R y z)"
      using False Cons.prems(2) by (auto simp: set_insort_key)
    then show ?thesis using False ih by simp
  qed
qed

lemma sort_key_stable_wrt:
  fixes f :: "'a \<Rightarrow> 'b :: linorder"
  assumes "sorted_wrt R xs"
  shows "sorted_wrt (\<lambda>a b. f a < f b \<or> (f a = f b \<and> R a b)) (sort_key f xs)"
  using assms
proof (induction xs)
  case Nil
  then show ?case by simp
next
  case (Cons x xs)
  have "sorted_wrt (\<lambda>a b. f a < f b \<or> (f a = f b \<and> R a b)) (insort_key f x (sort_key f xs))"
    using Cons by (intro insort_key_wrt) simp_all
  then show ?case by (simp add: sort_key_simps)
qed

lemma stable_parseCourts:
  "sorted_wrt (\<lambda>c d. courtNumber (name c) < courtNumber (name d)
                  \<or> (courtNumber (name c) = courtNumber (name d)
                     \<and> firstHeader hs (name c) < firstHeader hs (name d)))
     (parseCourts hs)"
proof -
  have "sorted_wrt (\<lambda>a b. firstHeader hs a < firstHeader hs b) (map name (map snd (courtMap hs)))"
    by (simp only: map_name_courtMap courtMap_header_order)
  then have "sorted_wrt (\<lambda>c d. firstHeader hs (name c) < firstHeader hs (name d)) (map snd (courtMap hs))"
    by (simp only: sorted_wrt_map)
  then show ?thesis
    unfolding parseCourts_def by (rule sort_key_stable_wrt)
qed

text \<open>Evaluating the header parser on literal headers.\<close>

lemmas match_eval = matchCourt_def canonicalize_def isSpace_def isDigit_def isLineTerminator_def
  trim_def toLowerCase_def toLowerChar_def Let_def char_of_eq_iff

lemmas courtNumber_defs = courtNumber_def courtInteger_def firstDigits_def isDigit_def
  parseIntDigits_def digitsVal_def digitVal_def double_eval

lemma courtNumber_small:
  "courtNumber ''Court 2'' = enat 2"
  "courtNumber ''Court 10'' = enat 10"
  "courtInteger ''Court 2'' = 2"
  by (simp_all add: courtNumber_defs)

lemma courtMap_example:
  "courtMap ['''', ''Time'', ''Court 2 Team A'', ''Court 2 Score A'', ''Court 2 Team B'',
             ''Court 2 Score B'', ''Court 10 A'', ''Court 10 B'']
     = [(''Court 2'', \<lparr>name = ''Court 2'', ct_hasScores = True, teamACol = Some 2,
           teamBCol = Some 4, scoreACol = Some 3, scoreBCol = Some 5\<rparr>),
        (''Court 10'', \<lparr>name = ''Court 10'', ct_hasScores = False, teamACol = Some 6,
           teamBCol = Some 7, scoreACol = None, scoreBCol = None\<rparr>)]"
  by (simp add: courtMap_def headerStep_def setField_def match_eval)

lemma parseCourts_example:
  "parseCourts ['''', ''Time'', ''Court 2 Team A'', ''Court 2 Score A'', ''Court 2 Team B'',
                ''Court 2 Score B'', ''Court 10 A'', ''Court 10 B'']
     = [\<lparr>name = ''Court 2'', ct_hasScores = True, teamACol = Some 2, teamBCol = Some 4,
          scoreACol = Some 3, scoreBCol = Some 5\<rparr>,
        \<lparr>name = ''Court 10'', ct_hasScores = False, teamACol = Some 6, teamBCol = Some 7,
          scoreACol = None, scoreBCol = None\<rparr>]"
  by (simp add: parseCourts_def courtMap_example courtNumber_small)

lemma courtNumber_big:
  "courtNumber ''Court 9007199254740993'' = enat 9007199254740992"
  "courtNumber ''Court 9007199254740992'' = enat 9007199254740992"
  "courtInteger ''Court 9007199254740993'' = 9007199254740993"
  "courtInteger ''Court 9007199254740992'' = 9007199254740992"
  by (simp_all add: courtNumber_defs)

lemma courtMap_big:
  "courtMap ['''', ''Time'', ''Court 9007199254740993 A'', ''Court 9007199254740992 A'']
     = [(''Court 9007199254740993'', \<lparr>name = ''Court 9007199254740993'', ct_hasScores = False,
           teamACol = Some 2, teamBCol = None, scoreACol = None, scoreBCol = None\<rparr>),
        (''Court 9007199254740992'', \<lparr>name = ''Court 9007199254740992'', ct_hasScores = False,
           teamACol = Some 3, teamBCol = None, scoreACol = None, scoreBCol = None\<rparr>)]"
  by (simp add: courtMap_def headerStep_def setField_def match_eval)

lemma parseCourts_big:
  "map name (parseCourts ['''', ''Time'', ''Court 9007199254740993 A'', ''Court 9007199254740992 A''])
     = [''Court 9007199254740993'', ''Court 9007199254740992'']"
  by (simp add: parseCourts_def courtMap_big courtNumber_big)

lemma courtNumber_one:
  "courtNumber ''Court 1'' = enat 1"
  "courtNumber ''court 1'' = enat 1"
  by (simp_all add: courtNumber_defs)

lemma courtMap_case:
  "courtMap ['''', ''Time'', ''Court 1 A'', ''court 1 A'']
     = [(''Court 1'', \<lparr>name = ''Court 1'', ct_hasScores = False, teamACol = Some 2,
           teamBCol = None, scoreACol = None, scoreBCol = None\<rparr>),
        (''court 1'', \<lparr>name = ''court 1'', ct_hasScores = False, teamACol = Some 3,
           teamBCol = None, scoreACol = None, scoreBCol = None\<rparr>)]"
  by (simp add: courtMap_def headerStep_def setField_def match_eval)

lemma firstHeader_case:
  "firstHeader ['''', ''Time'', ''Court 1 A'', ''court 1 A''] ''Court 1'' = 2"
  "firstHeader ['''', ''Time'', ''Court 1 A'', ''court 1 A''] ''court 1'' = 3"
proof -
  have upt4: "[0..<4] = [0, 1, 2, 3]" by (simp add: upt_rec)
  show "firstHeader ['''', ''Time'', ''Court 1 A'', ''court 1 A''] ''Court 1'' = 2"
    by (simp add: firstHeader_def headerField_def upt4 match_eval)
  show "firstHeader ['''', ''Time'', ''Court 1 A'', ''court 1 A''] ''court 1'' = 3"
    by (simp add: firstHeader_def headerField_def upt4 match_eval)
qed

lemma parseCourts_case:
  "map name (parseCourts ['''', ''Time'', ''Court 1 A'', ''court 1 A''])
     = [''Court 1'', ''court 1'']"
  by (simp add: parseCourts_def courtMap_case courtNumber_one)

text \<open>
  Claim C2, as the code has it. \<^verbatim>\<open>parseCourts\<close> does not look at the headers at index 0 and 1.
  \<^verbatim>\<open>matchCourt\<close> accepts exactly the labels of the pattern \<^verbatim>\<open>^(Court\s+\d+)\s+(.+)$\<close> in any
  case, with the pattern's first group. The courts returned are those named by a matching header
  at index 2 or more, each once (names compared exactly); each court holds, per field, the last
  index whose header names it with that field (\<^verbatim>\<open>team a\<close> or \<^verbatim>\<open>a\<close>, \<^verbatim>\<open>team b\<close> or \<^verbatim>\<open>b\<close>,
  \<^verbatim>\<open>score a\<close>, \<^verbatim>\<open>score b\<close>, after trimming and lower-casing), and \<open>hasScores\<close> exactly when
  it has a score column. The list is sorted ascending by the Number that \<^verbatim>\<open>parseInt\<close> reads
  from the first run of digits of the court name; that Number is the integer written whenever
  the integer is below \<open>2\<^sup>5\<^sup>3\<close>. The sort is stable: of two courts in the list, the one whose
  Number is smaller comes first, and when the Numbers are equal the one whose first header
  comes first; so the headers Court 1 A, court 1 A give Court 1, then court 1. The eight
  headers of the specification give Court 2 with scores, then Court 10 without.
\<close>

theorem parseCourts_spec:
  "parseCourts (a # b # rest) = parseCourts (a' # b' # rest)
   \<and> (\<forall>l g1 g2. matchCourt l = Some (g1, g2) \<longrightarrow> courtPattern l g1 g2)
   \<and> (\<forall>l g1 g2. courtPattern l g1 g2 \<longrightarrow> (\<exists>g2'. matchCourt l = Some (g1, g2')))
   \<and> set (map name (parseCourts hs)) = {cn. named hs cn}
   \<and> distinct (map name (parseCourts hs))
   \<and> (\<forall>c \<in> set (parseCourts hs). c = courtSpec hs (name c))
   \<and> sorted (map (\<lambda>c. courtNumber (name c)) (parseCourts hs))
   \<and> (\<forall>c \<in> set (parseCourts hs).
         courtInteger (name c) < 2 ^ 53 \<longrightarrow> courtNumber (name c) = enat (courtInteger (name c)))
   \<and> sorted_wrt (\<lambda>c d. courtNumber (name c) < courtNumber (name d)
                      \<or> (courtNumber (name c) = courtNumber (name d)
                         \<and> firstHeader hs (name c) < firstHeader hs (name d)))
        (parseCourts hs)
   \<and> map name (parseCourts ['''', ''Time'', ''Court 1 A'', ''court 1 A''])
       = [''Court 1'', ''court 1'']
   \<and> parseCourts ['''', ''Time'', ''Court 2 Team A'', ''Court 2 Score A'', ''Court 2 Team B'',
                   ''Court 2 Score B'', ''Court 10 A'', ''Court 10 B'']
       = [\<lparr>name = ''Court 2'', ct_hasScores = True, teamACol = Some 2, teamBCol = Some 4,
            scoreACol = Some 3, scoreBCol = Some 5\<rparr>,
          \<lparr>name = ''Court 10'', ct_hasScores = False, teamACol = Some 6, teamBCol = Some 7,
            scoreACol = None, scoreBCol = None\<rparr>]"
proof -
  have skip: "parseCourts (a # b # rest) = parseCourts (a' # b' # rest)"
    by (rule parseCourts_skip)
  have snd: "\<forall>l g1 g2. matchCourt l = Some (g1, g2) \<longrightarrow> courtPattern l g1 g2"
    using matchCourt_sound by blast
  have cmp: "\<forall>l g1 g2. courtPattern l g1 g2 \<longrightarrow> (\<exists>g2'. matchCourt l = Some (g1, g2'))"
    using matchCourt_complete by blast
  have spec: "\<forall>c \<in> set (parseCourts hs). c = courtSpec hs (name c)"
    by (simp add: set_parseCourts)
  have exact: "\<forall>c \<in> set (parseCourts hs).
         courtInteger (name c) < 2 ^ 53 \<longrightarrow> courtNumber (name c) = enat (courtInteger (name c))"
    using courtNumber_exact by blast
  from skip snd cmp names_parseCourts [of hs] distinct_names_parseCourts [of hs] spec
    sorted_parseCourts [of hs] exact stable_parseCourts [of hs] parseCourts_case
    parseCourts_example
  show ?thesis by (intro conjI)
qed

text \<open>
  On the headers of the specification: Court 2 is in the result, it is what the headers say of
  Court 2, its number is the integer 2, and its first header is a label of the pattern. On the
  headers Court 1 A, court 1 A: the two courts have the same number, Court 1 has the earlier
  first header, and it comes first.
\<close>

theorem parseCourts_spec_witness:
  "\<lparr>name = ''Court 2'', ct_hasScores = True, teamACol = Some 2, teamBCol = Some 4,
      scoreACol = Some 3, scoreBCol = Some 5\<rparr>
     \<in> set (parseCourts ['''', ''Time'', ''Court 2 Team A'', ''Court 2 Score A'',
                ''Court 2 Team B'', ''Court 2 Score B'', ''Court 10 A'', ''Court 10 B''])
   \<and> courtSpec ['''', ''Time'', ''Court 2 Team A'', ''Court 2 Score A'',
                ''Court 2 Team B'', ''Court 2 Score B'', ''Court 10 A'', ''Court 10 B''] ''Court 2''
       = \<lparr>name = ''Court 2'', ct_hasScores = True, teamACol = Some 2, teamBCol = Some 4,
            scoreACol = Some 3, scoreBCol = Some 5\<rparr>
   \<and> courtInteger ''Court 2'' < 2 ^ 53
   \<and> courtNumber ''Court 2'' = enat (courtInteger ''Court 2'')
   \<and> matchCourt ''Court 2 Team A'' = Some (''Court 2'', ''Team A'')
   \<and> courtPattern ''Court 2 Team A'' ''Court 2'' ''Team A''
   \<and> courtNumber ''Court 1'' = courtNumber ''court 1''
   \<and> firstHeader ['''', ''Time'', ''Court 1 A'', ''court 1 A''] ''Court 1''
       < firstHeader ['''', ''Time'', ''Court 1 A'', ''court 1 A''] ''court 1''
   \<and> map name (parseCourts ['''', ''Time'', ''Court 1 A'', ''court 1 A''])
       = [''Court 1'', ''court 1'']"
proof -
  let ?hs = "['''', ''Time'', ''Court 2 Team A'', ''Court 2 Score A'',
              ''Court 2 Team B'', ''Court 2 Score B'', ''Court 10 A'', ''Court 10 B'']"
  let ?c = "\<lparr>name = ''Court 2'', ct_hasScores = True, teamACol = Some 2, teamBCol = Some 4,
              scoreACol = Some 3, scoreBCol = Some 5\<rparr>"
  note t = parseCourts_spec [of "''''" "''Time''" "[]" "''''" "''Time''" ?hs]
  have ex: "parseCourts ?hs = [?c, \<lparr>name = ''Court 10'', ct_hasScores = False, teamACol = Some 6,
              teamBCol = Some 7, scoreACol = None, scoreBCol = None\<rparr>]"
    using t by (elim conjE)
  have mem: "?c \<in> set (parseCourts ?hs)"
    by (simp only: ex list.set insertI1)
  have small: "courtInteger ''Court 2'' < 2 ^ 53"
    by (simp add: courtNumber_small)
  have all_spec: "\<forall>c \<in> set (parseCourts ?hs). c = courtSpec ?hs (name c)"
    using t by (elim conjE)
  have all_exact: "\<forall>c \<in> set (parseCourts ?hs).
         courtInteger (name c) < 2 ^ 53 \<longrightarrow> courtNumber (name c) = enat (courtInteger (name c))"
    using t by (elim conjE)
  have all_match: "\<forall>l g1 g2. matchCourt l = Some (g1, g2) \<longrightarrow> courtPattern l g1 g2"
    using t by (elim conjE)
  have m: "matchCourt ''Court 2 Team A'' = Some (''Court 2'', ''Team A'')"
    by (simp add: match_eval)
  have spec: "courtSpec ?hs ''Court 2'' = ?c"
    using bspec [OF all_spec mem] by simp
  have exact: "courtNumber ''Court 2'' = enat (courtInteger ''Court 2'')"
    using bspec [OF all_exact mem] small by simp
  have pat: "courtPattern ''Court 2 Team A'' ''Court 2'' ''Team A''"
    using all_match m by blast
  have same: "courtNumber ''Court 1'' = courtNumber ''court 1''"
    by (simp only: courtNumber_one)
  have first: "firstHeader ['''', ''Time'', ''Court 1 A'', ''court 1 A''] ''Court 1''
       < firstHeader ['''', ''Time'', ''Court 1 A'', ''court 1 A''] ''court 1''"
    by (simp add: firstHeader_case)
  have order: "map name (parseCourts ['''', ''Time'', ''Court 1 A'', ''court 1 A''])
       = [''Court 1'', ''court 1'']"
    using t by (elim conjE)
  from mem spec small exact m pat same first order show ?thesis by (intro conjI)
qed

text \<open>
  The claim as written (sorted by the integer in the court name) fails past \<open>2\<^sup>5\<^sup>3\<close>: the
  integers 9007199254740993 and 9007199254740992 are read as the same Number, the comparator
  returns 0, and the stable sort leaves the larger integer first.
\<close>

theorem parseCourts_sorted_counterexample:
  "\<not> sorted (map (\<lambda>c. courtInteger (name c))
       (parseCourts ['''', ''Time'', ''Court 9007199254740993 A'', ''Court 9007199254740992 A'']))"
proof -
  have "map (\<lambda>c. courtInteger (name c))
          (parseCourts ['''', ''Time'', ''Court 9007199254740993 A'', ''Court 9007199254740992 A''])
        = map courtInteger (map name
          (parseCourts ['''', ''Time'', ''Court 9007199254740993 A'', ''Court 9007199254740992 A'']))"
    by (simp add: comp_def)
  also have "\<dots> = [9007199254740993, 9007199254740992]"
    by (simp only: parseCourts_big list.map courtNumber_big)
  finally show ?thesis by simp
qed

section \<open>The row parser\<close>

lemma natToString_digit: "n < 10 \<Longrightarrow> natToString n = [char_of (48 + n)]"
  by (subst natToString.simps) simp

lemma natToString_two:
  assumes "10 \<le> n" and "n < 100"
  shows "natToString n = [char_of (48 + n div 10), char_of (48 + n mod 10)]"
proof -
  have "n div 10 < 10" using assms by simp
  then have "natToString (n div 10) = [char_of (48 + n div 10)]" by (rule natToString_digit)
  then show ?thesis using assms by (subst natToString.simps) simp
qed

lemma char_of_48: "char_of (48 :: nat) = CHR ''0''"
  by (simp add: char_of_eq_iff)

lemma padStart2_minute:
  assumes "0 \<le> m" and "m < 60"
  shows "padStart2 (intToString m) = twoDigits m"
proof (cases "nat m < 10")
  case True
  then have "natToString (nat m) = [char_of (48 + nat m)]" by (rule natToString_digit)
  then show ?thesis using assms True
    by (simp add: padStart2_def intToString_def twoDigits_def char_of_48)
next
  case False
  then have "natToString (nat m) = [char_of (48 + nat m div 10), char_of (48 + nat m mod 10)]"
    using assms by (intro natToString_two) simp_all
  then show ?thesis using assms
    by (simp add: padStart2_def intToString_def twoDigits_def)
qed

lemma timeOfDay_unfold:
  "timeOfDay (h # m # rest)
     = (if m = 0
        then intToString (if jsRem h 12 = 0 then 12 else jsRem h 12)
             @ (if 12 \<le> h then ''PM'' else ''AM'')
        else intToString (if jsRem h 12 = 0 then 12 else jsRem h 12) @ '':''
             @ padStart2 (intToString m) @ (if 12 \<le> h then ''PM'' else ''AM''))"
  by (simp add: timeOfDay_def Let_def)

lemma timeOfDay_hour_only:
  "timeOfDay [h]
     = intToString (if jsRem h 12 = 0 then 12 else jsRem h 12) @ '':undefined''
       @ (if 12 \<le> h then ''PM'' else ''AM'')"
  by (simp add: timeOfDay_def Let_def padStart2_def)

lemma timeOfDay_Nil: "timeOfDay [] = ''12:undefinedAM''"
  by (simp add: timeOfDay_def Let_def padStart2_def intToString_def natToString.simps
      char_of_eq_iff)

lemma twelveHour_mod:
  assumes "0 \<le> h" and "h < 24"
  shows "(if h mod 12 = 0 then 12 else h mod 12) = twelveHour h"
  using assms unfolding twelveHour_def by presburger

lemma timeOfDay_clock:
  assumes "0 \<le> h" and "h < 24" and "0 \<le> m" and "m < 60"
  shows "timeOfDay (h # m # rest)
           = intToString (twelveHour h) @ (if m = 0 then [] else CHR '':'' # twoDigits m)
             @ (if h < 12 then ''AM'' else ''PM'')"
proof -
  have rem: "jsRem h 12 = h mod 12" using assms(1) by (simp add: jsRem_def)
  have h12: "(if h mod 12 = 0 then 12 else h mod 12) = twelveHour h"
    using assms(1,2) by (rule twelveHour_mod)
  have pad: "padStart2 (intToString m) = twoDigits m"
    using assms(3,4) by (rule padStart2_minute)
  have noon: "(12 \<le> h) = (\<not> h < 12)" by auto
  show ?thesis
    unfolding timeOfDay_unfold rem h12 pad noon by simp
qed

lemmas time_eval = timeCell_def rowCell_def timeOfDay_def jsRem_def intToString_def padStart2_def
  natToString.simps char_of_eq_iff Let_def

text \<open>
  Claim C3, as the code has it. \<^verbatim>\<open>timeCell\<close> gives the empty string when the row has no cell
  at the index (no cell list, a list too short, a null entry); else the formatted string
  trimmed, when the cell has one; else the empty string for a null raw value; else, for an
  array, whatever its length, a clock text made of its first two elements \<open>h\<close> and \<open>m\<close>: the
  hour's remainder by 12 (12 when that is 0), then a colon and the minute padded to two
  characters unless the minute is 0, then PM from hour 12 on and AM below. For an hour of the
  day and a minute of the hour that is the 12-hour hour (0 and 12 give 12, 13 gives 1) and the
  minute on exactly two digits. An array with one element has the text \<^verbatim>\<open>undefined\<close> for its
  minute, the empty array that and the hour 12 of the morning. Only a raw value that is no
  array is made a string and trimmed. On column 1, the arrays \<open>[9,0,0,0]\<close>, \<open>[13,30,0,0]\<close> and
  \<open>[0,0,0,0]\<close> give 9AM, 1:30PM and 12AM.
\<close>

theorem timeCell_spec:
  "(row_c row = None \<longrightarrow> timeCell row idx = [])
   \<and> (\<forall>cs. row_c row = Some cs \<and> (length cs \<le> idx \<or> cs ! idx = None) \<longrightarrow> timeCell row idx = [])
   \<and> (\<forall>col s. rowCell row idx = Some col \<and> cell_f col = Some s \<longrightarrow> timeCell row idx = trim s)
   \<and> (\<forall>col. rowCell row idx = Some col \<and> cell_f col = None \<and> cell_v col = None
         \<longrightarrow> timeCell row idx = [])
   \<and> (\<forall>col h m rest.
         rowCell row idx = Some col \<and> cell_f col = None
         \<and> cell_v col = Some (GArray (h # m # rest)) \<and> \<bar>h\<bar> \<le> 2 ^ 53 \<and> \<bar>m\<bar> \<le> 2 ^ 53
         \<longrightarrow> timeCell row idx
               = intToString (if jsRem h 12 = 0 then 12 else jsRem h 12)
                 @ (if m = 0 then [] else CHR '':'' # padStart2 (intToString m))
                 @ (if 12 \<le> h then ''PM'' else ''AM''))
   \<and> (\<forall>col h m rest.
         rowCell row idx = Some col \<and> cell_f col = None
         \<and> cell_v col = Some (GArray (h # m # rest)) \<and> 0 \<le> h \<and> h < 24 \<and> 0 \<le> m \<and> m < 60
         \<longrightarrow> timeCell row idx
               = intToString (twelveHour h) @ (if m = 0 then [] else CHR '':'' # twoDigits m)
                 @ (if h < 12 then ''AM'' else ''PM''))
   \<and> (\<forall>col h.
         rowCell row idx = Some col \<and> cell_f col = None
         \<and> cell_v col = Some (GArray [h]) \<and> \<bar>h\<bar> \<le> 2 ^ 53
         \<longrightarrow> timeCell row idx
               = intToString (if jsRem h 12 = 0 then 12 else jsRem h 12) @ '':undefined''
                 @ (if 12 \<le> h then ''PM'' else ''AM''))
   \<and> (\<forall>col. rowCell row idx = Some col \<and> cell_f col = None \<and> cell_v col = Some (GArray [])
         \<longrightarrow> timeCell row idx = ''12:undefinedAM'')
   \<and> (\<forall>col s. rowCell row idx = Some col \<and> cell_f col = None \<and> cell_v col = Some (GScalar s)
         \<longrightarrow> timeCell row idx = trim s)
   \<and> (\<forall>cs col. row_c row = Some cs \<and> idx < length cs \<and> cs ! idx = Some col
         \<longrightarrow> rowCell row idx = Some col)
   \<and> timeCell \<lparr>row_c = Some [None, Some \<lparr>cell_v = Some (GArray [9, 0, 0, 0]), cell_f = None\<rparr>]\<rparr> 1
       = ''9AM''
   \<and> timeCell \<lparr>row_c = Some [None, Some \<lparr>cell_v = Some (GArray [13, 30, 0, 0]), cell_f = None\<rparr>]\<rparr> 1
       = ''1:30PM''
   \<and> timeCell \<lparr>row_c = Some [None, Some \<lparr>cell_v = Some (GArray [0, 0, 0, 0]), cell_f = None\<rparr>]\<rparr> 1
       = ''12AM''"
proof -
  have a: "row_c row = None \<longrightarrow> timeCell row idx = []"
    by (simp add: timeCell_def rowCell_def)
  have b: "\<forall>cs. row_c row = Some cs \<and> (length cs \<le> idx \<or> cs ! idx = None) \<longrightarrow> timeCell row idx = []"
    by (auto simp: timeCell_def rowCell_def)
  have c: "\<forall>col s. rowCell row idx = Some col \<and> cell_f col = Some s \<longrightarrow> timeCell row idx = trim s"
    by (simp add: timeCell_def)
  have d: "\<forall>col. rowCell row idx = Some col \<and> cell_f col = None \<and> cell_v col = None
         \<longrightarrow> timeCell row idx = []"
    by (simp add: timeCell_def)
  have e0: "\<forall>col h m rest.
         rowCell row idx = Some col \<and> cell_f col = None
         \<and> cell_v col = Some (GArray (h # m # rest)) \<and> \<bar>h\<bar> \<le> 2 ^ 53 \<and> \<bar>m\<bar> \<le> 2 ^ 53
         \<longrightarrow> timeCell row idx
               = intToString (if jsRem h 12 = 0 then 12 else jsRem h 12)
                 @ (if m = 0 then [] else CHR '':'' # padStart2 (intToString m))
                 @ (if 12 \<le> h then ''PM'' else ''AM'')"
    by (simp add: timeCell_def timeOfDay_unfold)
  have e: "\<forall>col h m rest.
         rowCell row idx = Some col \<and> cell_f col = None
         \<and> cell_v col = Some (GArray (h # m # rest)) \<and> 0 \<le> h \<and> h < 24 \<and> 0 \<le> m \<and> m < 60
         \<longrightarrow> timeCell row idx
               = intToString (twelveHour h) @ (if m = 0 then [] else CHR '':'' # twoDigits m)
                 @ (if h < 12 then ''AM'' else ''PM'')"
    by (simp add: timeCell_def timeOfDay_clock)
  have e1: "\<forall>col h.
         rowCell row idx = Some col \<and> cell_f col = None
         \<and> cell_v col = Some (GArray [h]) \<and> \<bar>h\<bar> \<le> 2 ^ 53
         \<longrightarrow> timeCell row idx
               = intToString (if jsRem h 12 = 0 then 12 else jsRem h 12) @ '':undefined''
                 @ (if 12 \<le> h then ''PM'' else ''AM'')"
    by (simp add: timeCell_def timeOfDay_hour_only)
  have e2: "\<forall>col. rowCell row idx = Some col \<and> cell_f col = None \<and> cell_v col = Some (GArray [])
         \<longrightarrow> timeCell row idx = ''12:undefinedAM''"
    by (simp add: timeCell_def timeOfDay_Nil)
  have f: "\<forall>col s. rowCell row idx = Some col \<and> cell_f col = None \<and> cell_v col = Some (GScalar s)
         \<longrightarrow> timeCell row idx = trim s"
    by (simp add: timeCell_def)
  have g: "\<forall>cs col. row_c row = Some cs \<and> idx < length cs \<and> cs ! idx = Some col
         \<longrightarrow> rowCell row idx = Some col"
    by (simp add: rowCell_def)
  have x1: "timeCell \<lparr>row_c = Some [None, Some \<lparr>cell_v = Some (GArray [9, 0, 0, 0]), cell_f = None\<rparr>]\<rparr> 1
       = ''9AM''"
    by (simp add: time_eval)
  have x2: "timeCell \<lparr>row_c = Some [None, Some \<lparr>cell_v = Some (GArray [13, 30, 0, 0]), cell_f = None\<rparr>]\<rparr> 1
       = ''1:30PM''"
    by (simp add: time_eval)
  have x3: "timeCell \<lparr>row_c = Some [None, Some \<lparr>cell_v = Some (GArray [0, 0, 0, 0]), cell_f = None\<rparr>]\<rparr> 1
       = ''12AM''"
    by (simp add: time_eval)
  from a b c d e0 e e1 e2 f g x1 x2 x3 show ?thesis by (intro conjI)
qed

text \<open>
  A row whose cell 1 holds 15:05 as an array and no formatted string gives 3:05PM; with a
  formatted string, the string wins.
\<close>

theorem timeCell_spec_witness:
  "rowCell \<lparr>row_c = Some [None, Some \<lparr>cell_v = Some (GArray [15, 5, 0, 0]), cell_f = None\<rparr>]\<rparr> 1
     = Some \<lparr>cell_v = Some (GArray [15, 5, 0, 0]), cell_f = None\<rparr>
   \<and> timeCell \<lparr>row_c = Some [None, Some \<lparr>cell_v = Some (GArray [15, 5, 0, 0]), cell_f = None\<rparr>]\<rparr> 1
       = ''3:05PM''
   \<and> rowCell \<lparr>row_c = Some [None, Some \<lparr>cell_v = Some (GArray [15, 5, 0, 0]), cell_f = Some '' 3 pm ''\<rparr>]\<rparr> 1
       = Some \<lparr>cell_v = Some (GArray [15, 5, 0, 0]), cell_f = Some '' 3 pm ''\<rparr>
   \<and> timeCell \<lparr>row_c = Some [None, Some \<lparr>cell_v = Some (GArray [15, 5, 0, 0]), cell_f = Some '' 3 pm ''\<rparr>]\<rparr> 1
       = ''3 pm''"
proof -
  let ?c1 = "\<lparr>cell_v = Some (GArray [15, 5, 0, 0]), cell_f = None\<rparr>"
  let ?c2 = "\<lparr>cell_v = Some (GArray [15, 5, 0, 0]), cell_f = Some '' 3 pm ''\<rparr>"
  let ?r1 = "\<lparr>row_c = Some [None, Some ?c1]\<rparr>"
  let ?r2 = "\<lparr>row_c = Some [None, Some ?c2]\<rparr>"
  have rc1: "rowCell ?r1 1 = Some ?c1"
    using timeCell_spec [of ?r1 1] by simp
  have rc2: "rowCell ?r2 1 = Some ?c2"
    using timeCell_spec [of ?r2 1] by simp
  have e: "\<forall>col h m rest.
         rowCell ?r1 1 = Some col \<and> cell_f col = None
         \<and> cell_v col = Some (GArray (h # m # rest)) \<and> 0 \<le> h \<and> h < 24 \<and> 0 \<le> m \<and> m < 60
         \<longrightarrow> timeCell ?r1 1
               = intToString (twelveHour h) @ (if m = 0 then [] else CHR '':'' # twoDigits m)
                 @ (if h < 12 then ''AM'' else ''PM'')"
    using timeCell_spec [of ?r1 1] by (elim conjE)
  have "timeCell ?r1 1 = intToString (twelveHour 15) @ (if (5::int) = 0 then [] else CHR '':'' # twoDigits 5)
                 @ (if (15::int) < 12 then ''AM'' else ''PM'')"
    using e rc1 by simp
  then have t1: "timeCell ?r1 1 = ''3:05PM''"
    by (simp add: twelveHour_def twoDigits_def intToString_def natToString.simps char_of_eq_iff)
  have c: "\<forall>col s. rowCell ?r2 1 = Some col \<and> cell_f col = Some s \<longrightarrow> timeCell ?r2 1 = trim s"
    using timeCell_spec [of ?r2 1] by (elim conjE)
  have "timeCell ?r2 1 = trim '' 3 pm ''"
    using c rc2 by simp
  then have t2: "timeCell ?r2 1 = ''3 pm''"
    by (simp add: trim_def isSpace_def)
  from rc1 t1 rc2 t2 show ?thesis by (intro conjI)
qed

text \<open>
  The claim as written (the array branch for a four-element array, any other raw value made a
  string) fails on an array of another length: the three elements 9, 30, 0 with no formatted
  string give the clock text 9:30AM, where the array made a string and trimmed is 9,30,0.
\<close>

theorem timeCell_three_elements_counterexample:
  "length [9, 30, 0 :: int] \<noteq> 4
   \<and> timeCell \<lparr>row_c = Some [None, Some \<lparr>cell_v = Some (GArray [9, 30, 0]), cell_f = None\<rparr>]\<rparr> 1
       = ''9:30AM''
   \<and> trim (toString (GArray [9, 30, 0])) = ''9,30,0''
   \<and> timeCell \<lparr>row_c = Some [None, Some \<lparr>cell_v = Some (GArray [9, 30, 0]), cell_f = None\<rparr>]\<rparr> 1
       \<noteq> trim (toString (GArray [9, 30, 0]))"
proof -
  have t: "timeCell \<lparr>row_c = Some [None, Some \<lparr>cell_v = Some (GArray [9, 30, 0]), cell_f = None\<rparr>]\<rparr> 1
       = ''9:30AM''"
    by (simp add: time_eval)
  have s: "trim (toString (GArray [9, 30, 0])) = ''9,30,0''"
    by (simp add: trim_def isSpace_def intToString_def natToString.simps char_of_eq_iff)
  show ?thesis unfolding t s by simp
qed

lemma hasScores_parseCourts:
  assumes "ct \<in> set (parseCourts hs)"
  shows "ct_hasScores ct \<longleftrightarrow> scoreACol ct \<noteq> None \<or> scoreBCol ct \<noteq> None"
proof -
  from assms have "ct = courtSpec hs (name ct)" by (simp add: set_parseCourts)
  then have "ct_hasScores ct = ct_hasScores (courtSpec hs (name ct))"
    and "scoreACol ct = scoreACol (courtSpec hs (name ct))"
    and "scoreBCol ct = scoreBCol (courtSpec hs (name ct))"
    by simp_all
  then show ?thesis by (simp add: courtSpec_def)
qed

lemma matchups_parseRounds:
  assumes "r \<in> set (parseRounds t)"
  obtains row where "row \<in> set (rows t)"
    and "matchups r = map (\<lambda>ct.
              \<lparr>court = name ct,
               hasScores = ct_hasScores ct,
               teamA = cell row (teamACol ct),
               teamB = cell row (teamBCol ct),
               scoreA = (if scoreACol ct \<noteq> None then cell row (scoreACol ct) else []),
               scoreB = (if scoreBCol ct \<noteq> None then cell row (scoreBCol ct) else [])\<rparr>)
            (parseCourts (headers t))"
  using assms by (auto simp: parseRounds_def Let_def)

text \<open>
  Claim C4. \<^verbatim>\<open>parseRounds\<close> returns one round per data row; the matchups of every round name
  the courts of \<^verbatim>\<open>parseCourts\<close> on the table's headers, in that order (so all rounds have as
  many matchups as there are courts); and the matchup of a court with no score column has empty
  scores and \<open>hasScores\<close> false, whatever the row holds.
\<close>

theorem parseRounds_shape:
  "length (parseRounds t) = length (rows t)
   \<and> (\<forall>r \<in> set (parseRounds t).
         map court (matchups r) = map name (parseCourts (headers t))
         \<and> length (matchups r) = length (parseCourts (headers t)))
   \<and> (\<forall>r \<in> set (parseRounds t). \<forall>i < length (parseCourts (headers t)).
         scoreACol (parseCourts (headers t) ! i) = None
         \<and> scoreBCol (parseCourts (headers t) ! i) = None
         \<longrightarrow> scoreA (matchups r ! i) = [] \<and> scoreB (matchups r ! i) = []
             \<and> \<not> hasScores (matchups r ! i))"
proof -
  have len: "length (parseRounds t) = length (rows t)"
    by (simp add: parseRounds_def Let_def)
  have shape: "\<forall>r \<in> set (parseRounds t).
         map court (matchups r) = map name (parseCourts (headers t))
         \<and> length (matchups r) = length (parseCourts (headers t))"
  proof
    fix r assume "r \<in> set (parseRounds t)"
    then obtain row where "matchups r = map (\<lambda>ct.
              \<lparr>court = name ct,
               hasScores = ct_hasScores ct,
               teamA = cell row (teamACol ct),
               teamB = cell row (teamBCol ct),
               scoreA = (if scoreACol ct \<noteq> None then cell row (scoreACol ct) else []),
               scoreB = (if scoreBCol ct \<noteq> None then cell row (scoreBCol ct) else [])\<rparr>)
            (parseCourts (headers t))"
      by (rule matchups_parseRounds)
    then show "map court (matchups r) = map name (parseCourts (headers t))
         \<and> length (matchups r) = length (parseCourts (headers t))"
      by (simp add: comp_def)
  qed
  have noscore: "\<forall>r \<in> set (parseRounds t). \<forall>i < length (parseCourts (headers t)).
         scoreACol (parseCourts (headers t) ! i) = None
         \<and> scoreBCol (parseCourts (headers t) ! i) = None
         \<longrightarrow> scoreA (matchups r ! i) = [] \<and> scoreB (matchups r ! i) = []
             \<and> \<not> hasScores (matchups r ! i)"
  proof (intro ballI allI impI)
    fix r i
    assume r: "r \<in> set (parseRounds t)" and i: "i < length (parseCourts (headers t))"
      and no: "scoreACol (parseCourts (headers t) ! i) = None
               \<and> scoreBCol (parseCourts (headers t) ! i) = None"
    from r obtain row where m: "matchups r = map (\<lambda>ct.
              \<lparr>court = name ct,
               hasScores = ct_hasScores ct,
               teamA = cell row (teamACol ct),
               teamB = cell row (teamBCol ct),
               scoreA = (if scoreACol ct \<noteq> None then cell row (scoreACol ct) else []),
               scoreB = (if scoreBCol ct \<noteq> None then cell row (scoreBCol ct) else [])\<rparr>)
            (parseCourts (headers t))"
      by (rule matchups_parseRounds)
    have "parseCourts (headers t) ! i \<in> set (parseCourts (headers t))"
      using i by simp
    then have "\<not> ct_hasScores (parseCourts (headers t) ! i)"
      using no by (simp add: hasScores_parseCourts)
    then show "scoreA (matchups r ! i) = [] \<and> scoreB (matchups r ! i) = []
             \<and> \<not> hasScores (matchups r ! i)"
      using i no by (simp add: m)
  qed
  from len shape noscore show ?thesis by (intro conjI)
qed

text \<open>
  A table with the court ``Court 10'' (no score columns) and one row: one round, one matchup,
  for Court 10, with empty scores and \<open>hasScores\<close> false.
\<close>

lemma parseCourts_court10:
  "parseCourts ['''', ''Time'', ''Court 10 A'', ''Court 10 B'']
     = [\<lparr>name = ''Court 10'', ct_hasScores = False, teamACol = Some 2, teamBCol = Some 3,
          scoreACol = None, scoreBCol = None\<rparr>]"
  by (simp add: parseCourts_def courtMap_def headerStep_def setField_def match_eval)

theorem parseRounds_shape_witness:
  "length (parseRounds
      \<lparr>cols = [\<lparr>label = None\<rparr>, \<lparr>label = Some ''Time''\<rparr>, \<lparr>label = Some ''Court 10 A''\<rparr>,
               \<lparr>label = Some ''Court 10 B''\<rparr>],
       rows = [\<lparr>row_c = Some [None, Some \<lparr>cell_v = Some (GArray [9, 0, 0, 0]), cell_f = None\<rparr>,
                 Some \<lparr>cell_v = Some (GScalar ''Red''), cell_f = None\<rparr>,
                 Some \<lparr>cell_v = Some (GScalar ''Blue''), cell_f = None\<rparr>]\<rparr>]\<rparr>) = 1
   \<and> map court (matchups (parseRounds
      \<lparr>cols = [\<lparr>label = None\<rparr>, \<lparr>label = Some ''Time''\<rparr>, \<lparr>label = Some ''Court 10 A''\<rparr>,
               \<lparr>label = Some ''Court 10 B''\<rparr>],
       rows = [\<lparr>row_c = Some [None, Some \<lparr>cell_v = Some (GArray [9, 0, 0, 0]), cell_f = None\<rparr>,
                 Some \<lparr>cell_v = Some (GScalar ''Red''), cell_f = None\<rparr>,
                 Some \<lparr>cell_v = Some (GScalar ''Blue''), cell_f = None\<rparr>]\<rparr>]\<rparr> ! 0)) = [''Court 10'']
   \<and> scoreA (matchups (parseRounds
      \<lparr>cols = [\<lparr>label = None\<rparr>, \<lparr>label = Some ''Time''\<rparr>, \<lparr>label = Some ''Court 10 A''\<rparr>,
               \<lparr>label = Some ''Court 10 B''\<rparr>],
       rows = [\<lparr>row_c = Some [None, Some \<lparr>cell_v = Some (GArray [9, 0, 0, 0]), cell_f = None\<rparr>,
                 Some \<lparr>cell_v = Some (GScalar ''Red''), cell_f = None\<rparr>,
                 Some \<lparr>cell_v = Some (GScalar ''Blue''), cell_f = None\<rparr>]\<rparr>]\<rparr> ! 0) ! 0) = []
   \<and> \<not> hasScores (matchups (parseRounds
      \<lparr>cols = [\<lparr>label = None\<rparr>, \<lparr>label = Some ''Time''\<rparr>, \<lparr>label = Some ''Court 10 A''\<rparr>,
               \<lparr>label = Some ''Court 10 B''\<rparr>],
       rows = [\<lparr>row_c = Some [None, Some \<lparr>cell_v = Some (GArray [9, 0, 0, 0]), cell_f = None\<rparr>,
                 Some \<lparr>cell_v = Some (GScalar ''Red''), cell_f = None\<rparr>,
                 Some \<lparr>cell_v = Some (GScalar ''Blue''), cell_f = None\<rparr>]\<rparr>]\<rparr> ! 0) ! 0)"
proof -
  define t where "t =
      \<lparr>cols = [\<lparr>label = None\<rparr>, \<lparr>label = Some ''Time''\<rparr>, \<lparr>label = Some ''Court 10 A''\<rparr>,
               \<lparr>label = Some ''Court 10 B''\<rparr>],
       rows = [\<lparr>row_c = Some [None, Some \<lparr>cell_v = Some (GArray [9, 0, 0, 0]), cell_f = None\<rparr>,
                 Some \<lparr>cell_v = Some (GScalar ''Red''), cell_f = None\<rparr>,
                 Some \<lparr>cell_v = Some (GScalar ''Blue''), cell_f = None\<rparr>]\<rparr>]\<rparr>"
  have hs: "headers t = ['''', ''Time'', ''Court 10 A'', ''Court 10 B'']"
    by (simp add: t_def headers_def)
  have cs: "parseCourts (headers t)
     = [\<lparr>name = ''Court 10'', ct_hasScores = False, teamACol = Some 2, teamBCol = Some 3,
          scoreACol = None, scoreBCol = None\<rparr>]"
    by (simp only: hs parseCourts_court10)
  note th = parseRounds_shape [of t]
  have len: "length (parseRounds t) = 1"
    using th by (simp add: t_def)
  then have mem: "parseRounds t ! 0 \<in> set (parseRounds t)"
    by simp
  have shape: "\<forall>r \<in> set (parseRounds t).
         map court (matchups r) = map name (parseCourts (headers t))
         \<and> length (matchups r) = length (parseCourts (headers t))"
    using th by (elim conjE)
  have noscore: "\<forall>r \<in> set (parseRounds t). \<forall>i < length (parseCourts (headers t)).
         scoreACol (parseCourts (headers t) ! i) = None
         \<and> scoreBCol (parseCourts (headers t) ! i) = None
         \<longrightarrow> scoreA (matchups r ! i) = [] \<and> scoreB (matchups r ! i) = []
             \<and> \<not> hasScores (matchups r ! i)"
    using th by (elim conjE)
  have names: "map court (matchups (parseRounds t ! 0)) = [''Court 10'']"
    using bspec [OF shape mem] by (simp add: cs)
  have "scoreA (matchups (parseRounds t ! 0) ! 0) = [] \<and> \<not> hasScores (matchups (parseRounds t ! 0) ! 0)"
    using bspec [OF noscore mem] by (simp add: cs)
  with len names show ?thesis
    unfolding t_def by (intro conjI) simp_all
qed

section \<open>The grid renderer\<close>

lemma mapE_total:
  assumes "\<And>x. x \<in> set xs \<Longrightarrow> f x = Inr (g x)"
  shows "mapE f xs = Inr (map g xs)"
  using assms by (induction xs) simp_all

lemma teamInSomeRound_total:
  assumes "\<And>r. r \<in> set vr \<Longrightarrow> i < length (matchups r)"
  shows "teamInSomeRound flt i vr
           = Inr (list_ex (\<lambda>r. teamA (matchups r ! i) = flt \<or> teamB (matchups r ! i) = flt) vr)"
  using assms by (induction vr) (simp_all add: Let_def)

lemma filterCourts_total:
  assumes "\<And>i r. i \<in> set idxs \<Longrightarrow> r \<in> set vr \<Longrightarrow> i < length (matchups r)"
  shows "filterCourts flt vr idxs
           = Inr (filter (\<lambda>i. list_ex (\<lambda>r. teamA (matchups r ! i) = flt
                                            \<or> teamB (matchups r ! i) = flt) vr) idxs)"
  using assms
proof (induction idxs)
  case Nil
  then show ?case by simp
next
  case (Cons i idxs)
  have "teamInSomeRound flt i vr
           = Inr (list_ex (\<lambda>r. teamA (matchups r ! i) = flt \<or> teamB (matchups r ! i) = flt) vr)"
    by (rule teamInSomeRound_total) (simp add: Cons.prems)
  moreover have "filterCourts flt vr idxs
           = Inr (filter (\<lambda>i. list_ex (\<lambda>r. teamA (matchups r ! i) = flt
                                            \<or> teamB (matchups r ! i) = flt) vr) idxs)"
    by (rule Cons.IH) (simp add: Cons.prems)
  ultimately show ?case by simp
qed

lemma nextRoundHasData_iff:
  assumes "j < length vr"
  shows "nextRoundHasData vr j
           = (j + 1 = length vr
              \<or> list_ex (\<lambda>nm. teamA nm \<noteq> [] \<or> teamB nm \<noteq> []) (matchups (vr ! (j + 1))))"
proof -
  have "(j = length vr - 1) = (j + 1 = length vr)" using assms by auto
  then show ?thesis by (simp add: nextRoundHasData_def Let_def)
qed

lemma renderCell_total:
  assumes "j < length vr" and "i < length (matchups (vr ! j))"
  shows "renderCell flt vr i j = Inr (gridCell flt vr i j)"
  using assms by (simp add: renderCell_def gridCell_def Let_def nextRoundHasData_iff)

lemma renderRow_total:
  assumes "\<And>r. r \<in> set vr \<Longrightarrow> i < length (matchups r)"
  shows "renderRow flt vr i = Inr (gridRow flt vr i)"
proof -
  have "mapE (renderCell flt vr i) [0..<length vr] = Inr (map (gridCell flt vr i) [0..<length vr])"
    by (rule mapE_total) (simp add: renderCell_total assms)
  then show ?thesis by (simp add: renderRow_def gridRow_def Let_def)
qed

lemma uniform_length:
  assumes "uniform vr" and "r \<in> set vr"
  shows "length (matchups r) = length (matchups (hd vr))"
  using assms by (simp add: uniform_def list_all_iff)

lemma uniform_valid: "uniform rs \<Longrightarrow> uniform (valid rs)"
proof -
  assume u: "uniform rs"
  show "uniform (valid rs)"
  proof (cases "valid rs")
    case Nil
    then show ?thesis by (simp add: uniform_def)
  next
    case (Cons r rest)
    then have "r \<in> set (valid rs)" by simp
    then have r: "r \<in> set rs" by (simp add: valid_def)
    have "\<forall>x \<in> set (valid rs). length (matchups x) = length (matchups r)"
      using u r by (auto simp: valid_def dest!: uniform_length [OF u])
    then show ?thesis by (simp add: uniform_def list_all_iff Cons)
  qed
qed

text \<open>The renderer without its loops, on valid rounds that all have as many matchups.\<close>

lemma renderAll_uniform:
  assumes "uniform (valid rounds)" and "valid rounds \<noteq> []"
  shows "renderAll flt rounds
           = Inr (if flt \<noteq> [] \<and> shownCourts flt (valid rounds) = [] then NoTeamMatches
                  else Schedule (map time (valid rounds))
                         (map (gridRow flt (valid rounds)) (shownCourts flt (valid rounds))))"
proof -
  let ?vr = "valid rounds"
  let ?all = "[0..<length (matchups (hd ?vr))]"
  have inr: "i < length (matchups r)" if "i \<in> set ?all" and "r \<in> set ?vr" for i r
    using that uniform_length [OF assms(1)] by simp
  have flt: "filterCourts flt ?vr ?all = Inr (shownCourts flt ?vr)" if "flt \<noteq> []"
    using that filterCourts_total [of ?all ?vr flt] inr by (simp add: shownCourts_def)
  have all: "shownCourts [] ?vr = ?all"
    by (simp add: shownCourts_def)
  have sub: "set (shownCourts flt ?vr) \<subseteq> set ?all"
    by (auto simp: shownCourts_def)
  have rows: "mapE (renderRow flt ?vr) (shownCourts flt ?vr)
                = Inr (map (gridRow flt ?vr) (shownCourts flt ?vr))"
  proof (rule mapE_total)
    fix i assume "i \<in> set (shownCourts flt ?vr)"
    then have "i \<in> set ?all" using sub by blast
    then show "renderRow flt ?vr i = Inr (gridRow flt ?vr i)"
      by (intro renderRow_total inr)
  qed
  show ?thesis
  proof (cases "flt = []")
    case True
    with rows all have "mapE (renderRow [] ?vr) ?all = Inr (map (gridRow [] ?vr) ?all)"
      by simp
    then show ?thesis
      using assms(2) True all by (simp add: renderAll_def valid_def [symmetric] Let_def)
  next
    case False
    then show ?thesis
      using assms(2) rows flt by (simp add: renderAll_def valid_def [symmetric] Let_def)
  qed
qed

lemma renderAll_empty: "valid rounds = [] \<Longrightarrow> renderAll flt rounds = Inr SheetEmpty"
  by (simp add: renderAll_def valid_def)

lemma valid_idem: "valid (valid rounds) = valid rounds"
  by (simp add: valid_def)

lemma renderAll_valid: "renderAll flt (valid rounds) = renderAll flt rounds"
  by (simp add: renderAll_def valid_def)

lemma mapE_Inr:
  "mapE f xs = Inr ys \<Longrightarrow> list_all2 (\<lambda>x y. f x = Inr y) xs ys"
  by (induction xs arbitrary: ys) (auto split: sum.splits)

lemma renderRow_Inr:
  assumes "renderRow flt vr i = Inr row"
  shows "length (cells row) = length vr"
proof -
  from assms obtain cs where "mapE (renderCell flt vr i) [0..<length vr] = Inr cs" and "cells row = cs"
    by (auto simp: renderRow_def Let_def split: sum.splits)
  then have "list_all2 (\<lambda>x y. renderCell flt vr i x = Inr y) [0..<length vr] (cells row)"
    by (simp add: mapE_Inr)
  then have "length [0..<length vr] = length (cells row)"
    by (rule list_all2_lengthD)
  then show ?thesis by simp
qed

lemma renderAll_Schedule:
  assumes "renderAll flt rounds = Inr (Schedule hs body)"
  shows "hs = map time (valid rounds)" and "\<forall>row \<in> set body. length (cells row) = length hs"
proof -
  from assms obtain shown where
    hs: "hs = map time (valid rounds)" and
    m: "mapE (renderRow flt (valid rounds)) shown = Inr body"
    by (auto simp: renderAll_def Let_def valid_def split: if_splits sum.splits)
  show "hs = map time (valid rounds)" by (rule hs)
  from m have "list_all2 (\<lambda>i row. renderRow flt (valid rounds) i = Inr row) shown body"
    by (simp add: mapE_Inr)
  then have "\<forall>row \<in> set body. \<exists>i. renderRow flt (valid rounds) i = Inr row"
    by (fastforce simp: list_all2_conv_all_nth in_set_conv_nth)
  then show "\<forall>row \<in> set body. length (cells row) = length hs"
    using renderRow_Inr by (auto simp: hs)
qed

lemma uniform_parseRounds: "uniform (parseRounds t)"
proof -
  have "length (matchups r) = length (parseCourts (headers t))" if "r \<in> set (parseRounds t)" for r
    using that by (auto simp: parseRounds_def Let_def)
  then show ?thesis
    by (cases "parseRounds t") (auto simp: uniform_def list_all_iff)
qed

text \<open>
  Claim C5. \<^verbatim>\<open>renderAll\<close> works on the rounds with a non-empty time only: its result is the
  same as on those rounds alone; the columns of a grid are the times of the valid rounds (none
  of them empty), and every body row has one cell per valid round; with no valid round the
  result is the empty-sheet message, and nothing else is built.
\<close>

theorem renderAll_valid_rounds:
  "valid rounds = filter (\<lambda>r. time r \<noteq> []) rounds
   \<and> renderAll flt rounds = renderAll flt (valid rounds)
   \<and> (\<forall>hs body. renderAll flt rounds = Inr (Schedule hs body)
         \<longrightarrow> hs = map time (valid rounds) \<and> [] \<notin> set hs
             \<and> (\<forall>row \<in> set body. length (cells row) = length hs))
   \<and> (valid rounds = [] \<longrightarrow> renderAll flt rounds = Inr SheetEmpty)"
proof -
  have a: "valid rounds = filter (\<lambda>r. time r \<noteq> []) rounds"
    by (simp add: valid_def)
  have b: "renderAll flt rounds = renderAll flt (valid rounds)"
    by (simp add: renderAll_valid)
  have c: "\<forall>hs body. renderAll flt rounds = Inr (Schedule hs body)
         \<longrightarrow> hs = map time (valid rounds) \<and> [] \<notin> set hs
             \<and> (\<forall>row \<in> set body. length (cells row) = length hs)"
  proof (intro allI impI)
    fix hs body
    assume r: "renderAll flt rounds = Inr (Schedule hs body)"
    have hs: "hs = map time (valid rounds)" using r by (rule renderAll_Schedule(1))
    have ne: "[] \<notin> set hs" by (auto simp: hs valid_def)
    have len: "\<forall>row \<in> set body. length (cells row) = length hs"
      using r by (rule renderAll_Schedule(2))
    from hs ne len
    show "hs = map time (valid rounds) \<and> [] \<notin> set hs
             \<and> (\<forall>row \<in> set body. length (cells row) = length hs)"
      by (intro conjI)
  qed
  have d: "valid rounds = [] \<longrightarrow> renderAll flt rounds = Inr SheetEmpty"
    by (simp add: renderAll_empty)
  from a b c d show ?thesis by (intro conjI)
qed

text \<open>Two rounds, the first with no time, and one court.\<close>

lemmas render_eval = renderAll_def renderRow_def renderCell_def nextRoundHasData_def
  renderMatchup_def courtClass_def firstDigits_def isDigit_def Let_def

lemma renderAll_two_rounds:
  "renderAll []
     [\<lparr>time = [], matchups = [\<lparr>court = ''Court 1'', hasScores = True, teamA = ''Green'',
          teamB = ''Gold'', scoreA = [], scoreB = []\<rparr>]\<rparr>,
      \<lparr>time = ''10AM'', matchups = [\<lparr>court = ''Court 1'', hasScores = True, teamA = ''Red'',
          teamB = ''Blue'', scoreA = ''21'', scoreB = ''15''\<rparr>]\<rparr>]
   = Inr (Schedule [''10AM'']
       [\<lparr>rowClass = ''court-1'', rowName = ''Court 1'',
         cells = [MatchTeams \<lparr>winner = True, players = Some ''Red'', score = Some (Fin 21)\<rparr>
                             \<lparr>winner = False, players = Some ''Blue'', score = Some (Fin 15)\<rparr>]\<rparr>])"
  by (simp add: render_eval Number_21 Number_15)

theorem renderAll_valid_rounds_witness:
  "renderAll []
     [\<lparr>time = [], matchups = [\<lparr>court = ''Court 1'', hasScores = True, teamA = ''Green'',
          teamB = ''Gold'', scoreA = [], scoreB = []\<rparr>]\<rparr>,
      \<lparr>time = ''10AM'', matchups = [\<lparr>court = ''Court 1'', hasScores = True, teamA = ''Red'',
          teamB = ''Blue'', scoreA = ''21'', scoreB = ''15''\<rparr>]\<rparr>]
   = Inr (Schedule [''10AM'']
       [\<lparr>rowClass = ''court-1'', rowName = ''Court 1'',
         cells = [MatchTeams \<lparr>winner = True, players = Some ''Red'', score = Some (Fin 21)\<rparr>
                             \<lparr>winner = False, players = Some ''Blue'', score = Some (Fin 15)\<rparr>]\<rparr>])
   \<and> map time (valid
     [\<lparr>time = [], matchups = [\<lparr>court = ''Court 1'', hasScores = True, teamA = ''Green'',
          teamB = ''Gold'', scoreA = [], scoreB = []\<rparr>]\<rparr>,
      \<lparr>time = ''10AM'', matchups = [\<lparr>court = ''Court 1'', hasScores = True, teamA = ''Red'',
          teamB = ''Blue'', scoreA = ''21'', scoreB = ''15''\<rparr>]\<rparr>]) = [''10AM'']
   \<and> valid [\<lparr>time = [], matchups = [\<lparr>court = ''Court 1'', hasScores = True,
          teamA = ''Green'', teamB = ''Gold'', scoreA = [], scoreB = []\<rparr>]\<rparr>] = []
   \<and> renderAll [] [\<lparr>time = [], matchups = [\<lparr>court = ''Court 1'', hasScores = True,
          teamA = ''Green'', teamB = ''Gold'', scoreA = [], scoreB = []\<rparr>]\<rparr>] = Inr SheetEmpty"
proof -
  define r0 where "r0 = \<lparr>time = [], matchups = [\<lparr>court = ''Court 1'', hasScores = True,
          teamA = ''Green'', teamB = ''Gold'', scoreA = [], scoreB = []\<rparr>]\<rparr>"
  define r1 where "r1 = \<lparr>time = ''10AM'', matchups = [\<lparr>court = ''Court 1'', hasScores = True,
          teamA = ''Red'', teamB = ''Blue'', scoreA = ''21'', scoreB = ''15''\<rparr>]\<rparr>"
  define body where "body =
       [\<lparr>rowClass = ''court-1'', rowName = ''Court 1'',
         cells = [MatchTeams \<lparr>winner = True, players = Some ''Red'', score = Some (Fin 21)\<rparr>
                             \<lparr>winner = False, players = Some ''Blue'', score = Some (Fin 15)\<rparr>]\<rparr>]"
  have run: "renderAll [] [r0, r1] = Inr (Schedule [''10AM''] body)"
    unfolding r0_def r1_def body_def by (rule renderAll_two_rounds)
  note t = renderAll_valid_rounds [of "[r0, r1]" "[]"]
  have "\<forall>hs body. renderAll [] [r0, r1] = Inr (Schedule hs body)
         \<longrightarrow> hs = map time (valid [r0, r1]) \<and> [] \<notin> set hs
             \<and> (\<forall>row \<in> set body. length (cells row) = length hs)"
    using t by (elim conjE)
  with run have hs: "map time (valid [r0, r1]) = [''10AM'']"
    by (metis (no_types, lifting))
  have v0: "valid [r0] = []"
    using renderAll_valid_rounds [of "[r0]" "[]"] by (simp add: r0_def)
  have "valid [r0] = [] \<longrightarrow> renderAll [] [r0] = Inr SheetEmpty"
    using renderAll_valid_rounds [of "[r0]" "[]"] by (elim conjE)
  with v0 have e: "renderAll [] [r0] = Inr SheetEmpty" by simp
  from run hs v0 e show ?thesis
    unfolding r0_def r1_def body_def by (intro conjI)
qed



lemma renderMatchup_no_winner: "\<not> winnerA (renderMatchup m False) \<and> \<not> winnerB (renderMatchup m False)"
  by (simp add: renderMatchup_def Let_def)

text \<open>
  Claim C1, as the code has it. On valid rounds that all have a matchup per court, the cell of a
  body row in the column of valid round \<open>j\<close> is the placeholder when a filter is set and neither
  team of the matchup is the filter value, and else \<^verbatim>\<open>renderMatchup\<close> of the matchup with
  \<open>showWinner\<close> true exactly when round \<open>j\<close> is the last valid round or some matchup of the
  valid round after it has a non-empty team A or team B. When round \<open>j\<close> is not the last and
  the round after it has no team name at all, no winner is highlighted in the cell.
\<close>

theorem renderAll_showWinner:
  assumes "uniform (valid rounds)"
    and "renderAll flt rounds = Inr (Schedule hs body)"
    and "k < length body" and "j < length (valid rounds)"
  shows "let vr = valid rounds;
             i = shownCourts flt vr ! k;
             m = matchups (vr ! j) ! i;
             showWinner = (j + 1 = length vr
                           \<or> (\<exists>nm \<in> set (matchups (vr ! (j + 1))). teamA nm \<noteq> [] \<or> teamB nm \<noteq> []))
         in length body = length (shownCourts flt vr)
          \<and> rowName (body ! k) = court (matchups (hd vr) ! i)
          \<and> cells (body ! k) ! j
              = (if flt = [] \<or> teamA m = flt \<or> teamB m = flt then renderMatchup m showWinner
                 else NoMatches)
          \<and> (\<not> showWinner \<longrightarrow>
                \<not> winnerA (cells (body ! k) ! j) \<and> \<not> winnerB (cells (body ! k) ! j))"
proof -
  let ?vr = "valid rounds"
  let ?i = "shownCourts flt ?vr ! k"
  let ?m = "matchups (?vr ! j) ! ?i"
  let ?sw = "j + 1 = length ?vr
             \<or> (\<exists>nm \<in> set (matchups (?vr ! (j + 1))). teamA nm \<noteq> [] \<or> teamB nm \<noteq> [])"
  have ne: "?vr \<noteq> []" using assms(4) by auto
  have body: "body = map (gridRow flt ?vr) (shownCourts flt ?vr)"
    using assms(2) renderAll_uniform [OF assms(1) ne, of flt] by (simp split: if_splits)
  then have len: "length body = length (shownCourts flt ?vr)" by simp
  have row: "body ! k = gridRow flt ?vr ?i"
    using assms(3) by (simp add: body)
  have nm: "rowName (body ! k) = court (matchups (hd ?vr) ! ?i)"
    by (simp add: row gridRow_def)
  have cell: "cells (body ! k) ! j
              = (if flt = [] \<or> teamA ?m = flt \<or> teamB ?m = flt then renderMatchup ?m ?sw
                 else NoMatches)"
    using assms(4) by (simp add: row gridRow_def gridCell_def list_ex_iff)
  have off: "\<not> ?sw \<longrightarrow> \<not> winnerA (cells (body ! k) ! j) \<and> \<not> winnerB (cells (body ! k) ! j)"
    unfolding cell using renderMatchup_no_winner [of ?m] by auto
  from len nm cell off show ?thesis
    unfolding Let_def by (intro conjI)
qed

text \<open>
  Red beats Blue 21 to 15 at 10AM and the 11AM round has no teams yet: the 10AM cell marks no
  winner.
\<close>

lemma renderAll_undecided:
  "renderAll []
     [\<lparr>time = ''10AM'', matchups = [\<lparr>court = ''Court 1'', hasScores = True, teamA = ''Red'',
          teamB = ''Blue'', scoreA = ''21'', scoreB = ''15''\<rparr>]\<rparr>,
      \<lparr>time = ''11AM'', matchups = [\<lparr>court = ''Court 1'', hasScores = True, teamA = [],
          teamB = [], scoreA = [], scoreB = []\<rparr>]\<rparr>]
   = Inr (Schedule [''10AM'', ''11AM'']
       [\<lparr>rowClass = ''court-1'', rowName = ''Court 1'',
         cells = [MatchTeams \<lparr>winner = False, players = Some ''Red'', score = Some (Fin 21)\<rparr>
                             \<lparr>winner = False, players = Some ''Blue'', score = Some (Fin 15)\<rparr>,
                  NoMatches]\<rparr>])"
  by (simp add: render_eval Number_21 Number_15 upt_rec)

theorem renderAll_showWinner_witness:
  "uniform (valid
     [\<lparr>time = ''10AM'', matchups = [\<lparr>court = ''Court 1'', hasScores = True, teamA = ''Red'',
          teamB = ''Blue'', scoreA = ''21'', scoreB = ''15''\<rparr>]\<rparr>,
      \<lparr>time = ''11AM'', matchups = [\<lparr>court = ''Court 1'', hasScores = True, teamA = [],
          teamB = [], scoreA = [], scoreB = []\<rparr>]\<rparr>])
   \<and> renderAll []
     [\<lparr>time = ''10AM'', matchups = [\<lparr>court = ''Court 1'', hasScores = True, teamA = ''Red'',
          teamB = ''Blue'', scoreA = ''21'', scoreB = ''15''\<rparr>]\<rparr>,
      \<lparr>time = ''11AM'', matchups = [\<lparr>court = ''Court 1'', hasScores = True, teamA = [],
          teamB = [], scoreA = [], scoreB = []\<rparr>]\<rparr>]
     = Inr (Schedule [''10AM'', ''11AM'']
       [\<lparr>rowClass = ''court-1'', rowName = ''Court 1'',
         cells = [MatchTeams \<lparr>winner = False, players = Some ''Red'', score = Some (Fin 21)\<rparr>
                             \<lparr>winner = False, players = Some ''Blue'', score = Some (Fin 15)\<rparr>,
                  NoMatches]\<rparr>])
   \<and> \<not> winnerA (cells
       ([\<lparr>rowClass = ''court-1'', rowName = ''Court 1'',
         cells = [MatchTeams \<lparr>winner = False, players = Some ''Red'', score = Some (Fin 21)\<rparr>
                             \<lparr>winner = False, players = Some ''Blue'', score = Some (Fin 15)\<rparr>,
                  NoMatches]\<rparr>] ! 0) ! 0)
   \<and> \<not> winnerB (cells
       ([\<lparr>rowClass = ''court-1'', rowName = ''Court 1'',
         cells = [MatchTeams \<lparr>winner = False, players = Some ''Red'', score = Some (Fin 21)\<rparr>
                             \<lparr>winner = False, players = Some ''Blue'', score = Some (Fin 15)\<rparr>,
                  NoMatches]\<rparr>] ! 0) ! 0)"
proof -
  define rs where "rs =
     [\<lparr>time = ''10AM'', matchups = [\<lparr>court = ''Court 1'', hasScores = True, teamA = ''Red'',
          teamB = ''Blue'', scoreA = ''21'', scoreB = ''15''\<rparr>]\<rparr>,
      \<lparr>time = ''11AM'', matchups = [\<lparr>court = ''Court 1'', hasScores = True, teamA = [],
          teamB = [], scoreA = [], scoreB = []\<rparr>]\<rparr>]"
  define body where "body =
       [\<lparr>rowClass = ''court-1'', rowName = ''Court 1'',
         cells = [MatchTeams \<lparr>winner = False, players = Some ''Red'', score = Some (Fin 21)\<rparr>
                             \<lparr>winner = False, players = Some ''Blue'', score = Some (Fin 15)\<rparr>,
                  NoMatches]\<rparr>]"
  have v: "valid rs = rs" by (simp add: rs_def valid_def)
  have u: "uniform (valid rs)" by (simp add: v) (simp add: rs_def uniform_def)
  have run: "renderAll [] rs = Inr (Schedule [''10AM'', ''11AM''] body)"
    unfolding rs_def body_def by (rule renderAll_undecided)
  have k: "0 < length body" by (simp add: body_def)
  have j: "0 < length (valid rs)" by (simp add: v) (simp add: rs_def)
  have nodata: "\<not> (0 + 1 = length (valid rs)
          \<or> (\<exists>nm \<in> set (matchups (valid rs ! (0 + 1))). teamA nm \<noteq> [] \<or> teamB nm \<noteq> []))"
    by (simp add: v) (simp add: rs_def)
  have "\<not> winnerA (cells (body ! 0) ! 0) \<and> \<not> winnerB (cells (body ! 0) ! 0)"
    using renderAll_showWinner [OF u run k j] nodata unfolding Let_def by blast
  with u run show ?thesis unfolding rs_def body_def by (intro conjI) simp_all
qed

text \<open>
  The claim as written fails in the last valid round: there \<open>showWinner\<close> is true, and the
  only round of this sheet marks Red, 21 to 15, as the winner.
\<close>

theorem renderAll_last_round_counterexample:
  "renderAll []
     [\<lparr>time = ''10AM'', matchups = [\<lparr>court = ''Court 1'', hasScores = True, teamA = ''Red'',
          teamB = ''Blue'', scoreA = ''21'', scoreB = ''15''\<rparr>]\<rparr>]
   = Inr (Schedule [''10AM'']
       [\<lparr>rowClass = ''court-1'', rowName = ''Court 1'',
         cells = [MatchTeams \<lparr>winner = True, players = Some ''Red'', score = Some (Fin 21)\<rparr>
                             \<lparr>winner = False, players = Some ''Blue'', score = Some (Fin 15)\<rparr>]\<rparr>])"
  by (simp add: render_eval Number_21 Number_15)

section \<open>Fetching and the load cycle\<close>

lemma orElse_simps:
  "orElse None b = b"
  "orElse (Some []) b = b"
  "d \<noteq> [] \<Longrightarrow> orElse (Some d) b = Some d"
  by (simp_all add: orElse_def)

text \<open>
  Claim C8, as the code has it. When the callback gets a response whose status is not
  \<^verbatim>\<open>ok\<close>, the promise rejects with an error whose message is the detailed message of the
  first error entry when that field is there and not empty; else the message of that entry when
  that field is there and not empty; else the placeholder, also when there is no error entry.
\<close>

theorem fetchSheetData_remote_error:
  assumes "status r \<noteq> Some ''ok''"
  shows "(\<exists>msg. fetchSheetData (Callback (Some r)) = Inl (Error msg))
       \<and> (\<forall>e es d. errors r = Some (e # es) \<and> detailed_message e = Some d \<and> d \<noteq> []
             \<longrightarrow> fetchSheetData (Callback (Some r)) = Inl (Error d))
       \<and> (\<forall>e es m. errors r = Some (e # es)
               \<and> (detailed_message e = None \<or> detailed_message e = Some [])
               \<and> message e = Some m \<and> m \<noteq> []
             \<longrightarrow> fetchSheetData (Callback (Some r)) = Inl (Error m))
       \<and> (\<forall>e es. errors r = Some (e # es)
               \<and> (detailed_message e = None \<or> detailed_message e = Some [])
               \<and> (message e = None \<or> message e = Some [])
             \<longrightarrow> fetchSheetData (Callback (Some r)) = Inl (Error ''Unknown error from Google Sheets''))
       \<and> (errors r = None \<or> errors r = Some []
             \<longrightarrow> fetchSheetData (Callback (Some r)) = Inl (Error ''Unknown error from Google Sheets''))"
proof -
  have rej: "fetchSheetData (Callback (Some r)) = Inl (Error (errorDetail (Some r)))"
    using assms by (simp add: fetchSheetData_def)
  have a: "\<exists>msg. fetchSheetData (Callback (Some r)) = Inl (Error msg)"
    using rej by blast
  have b: "\<forall>e es d. errors r = Some (e # es) \<and> detailed_message e = Some d \<and> d \<noteq> []
             \<longrightarrow> fetchSheetData (Callback (Some r)) = Inl (Error d)"
    by (auto simp: rej errorDetail_def firstError_def orElse_simps)
  have c: "\<forall>e es m. errors r = Some (e # es)
               \<and> (detailed_message e = None \<or> detailed_message e = Some [])
               \<and> message e = Some m \<and> m \<noteq> []
             \<longrightarrow> fetchSheetData (Callback (Some r)) = Inl (Error m)"
    by (auto simp: rej errorDetail_def firstError_def orElse_simps)
  have d: "\<forall>e es. errors r = Some (e # es)
               \<and> (detailed_message e = None \<or> detailed_message e = Some [])
               \<and> (message e = None \<or> message e = Some [])
             \<longrightarrow> fetchSheetData (Callback (Some r)) = Inl (Error ''Unknown error from Google Sheets'')"
    by (auto simp: rej errorDetail_def firstError_def orElse_simps)
  have e: "errors r = None \<or> errors r = Some []
             \<longrightarrow> fetchSheetData (Callback (Some r)) = Inl (Error ''Unknown error from Google Sheets'')"
    by (auto simp: rej errorDetail_def firstError_def orElse_simps)
  from a b c d e show ?thesis by (intro conjI)
qed

text \<open>A response with status \<^verbatim>\<open>error\<close> and one entry with both fields: the detailed one wins.\<close>

theorem fetchSheetData_remote_error_witness:
  "status \<lparr>status = Some ''error'', table = None,
           errors = Some [\<lparr>detailed_message = Some ''Sheet not found'',
                           message = Some ''Invalid query''\<rparr>]\<rparr> \<noteq> Some ''ok''
   \<and> fetchSheetData (Callback (Some \<lparr>status = Some ''error'', table = None,
           errors = Some [\<lparr>detailed_message = Some ''Sheet not found'',
                           message = Some ''Invalid query''\<rparr>]\<rparr>))
       = Inl (Error ''Sheet not found'')"
proof -
  let ?e = "\<lparr>detailed_message = Some ''Sheet not found'', message = Some ''Invalid query''\<rparr>"
  let ?r = "\<lparr>status = Some ''error'', table = None, errors = Some [?e]\<rparr>"
  have h: "status ?r \<noteq> Some ''ok''" by simp
  have "\<forall>e es d. errors ?r = Some (e # es) \<and> detailed_message e = Some d \<and> d \<noteq> []
             \<longrightarrow> fetchSheetData (Callback (Some ?r)) = Inl (Error d)"
    using fetchSheetData_remote_error [OF h] by (elim conjE)
  then have "errors ?r = Some (?e # []) \<and> detailed_message ?e = Some ''Sheet not found''
               \<and> ''Sheet not found'' \<noteq> []
             \<longrightarrow> fetchSheetData (Callback (Some ?r)) = Inl (Error ''Sheet not found'')"
    by (elim allE)
  then have "fetchSheetData (Callback (Some ?r)) = Inl (Error ''Sheet not found'')"
    by simp
  with h show ?thesis by (intro conjI)
qed

text \<open>
  The claim as written fails on a first entry whose detailed message is there but empty: the
  error then carries the entry's message, not the (empty) detailed message.
\<close>

theorem fetchSheetData_empty_detail_counterexample:
  "detailed_message \<lparr>detailed_message = Some [], message = Some ''Invalid query''\<rparr> = Some []
   \<and> fetchSheetData (Callback (Some \<lparr>status = Some ''error'', table = None,
           errors = Some [\<lparr>detailed_message = Some [], message = Some ''Invalid query''\<rparr>]\<rparr>))
       = Inl (Error ''Invalid query'')
   \<and> fetchSheetData (Callback (Some \<lparr>status = Some ''error'', table = None,
           errors = Some [\<lparr>detailed_message = Some [], message = Some ''Invalid query''\<rparr>]\<rparr>))
       \<noteq> Inl (Error [])"
  by (simp add: fetchSheetData_def errorDetail_def firstError_def orElse_def)

lemma renderAll_parseRounds: "\<exists>c. renderAll flt (parseRounds tbl) = Inr c"
proof (cases "valid (parseRounds tbl) = []")
  case True
  then show ?thesis by (simp add: renderAll_empty)
next
  case False
  have "uniform (valid (parseRounds tbl))"
    by (rule uniform_valid) (rule uniform_parseRounds)
  from renderAll_uniform [OF this False] show ?thesis by blast
qed

lemma loadData_failure_cases:
  "(\<exists>e. fetchSheetData ev = Inl e \<and> loadData ev clock s = loadFailed e (s\<lparr>statusText := Loading\<rparr>))
   \<or> (fetchSheetData ev = Inr None \<and> loadData ev clock s = loadFailed TypeError (s\<lparr>statusText := Loading\<rparr>))
   \<or> (\<exists>tbl. fetchSheetData ev = Inr (Some tbl) \<and> (\<exists>clk. statusText (loadData ev clock s) = Updated clk)
         \<and> cachedRounds (loadData ev clock s) = Some (parseRounds tbl))"
proof (cases "fetchSheetData ev")
  case (Inl e)
  then show ?thesis by (simp add: loadData_def)
next
  case (Inr res)
  show ?thesis
  proof (cases res)
    case None
    with Inr show ?thesis by (simp add: loadData_def)
  next
    case (Some tbl)
    let ?s2 = "populateTeamFilter (collectTeams (parseRounds tbl))
                 (s\<lparr>statusText := Loading, cachedRounds := Some (parseRounds tbl)\<rparr>)"
    obtain c where c: "renderAll (activeTeamFilter ?s2) (parseRounds tbl) = Inr c"
      using renderAll_parseRounds by blast
    have "loadData ev clock s = ?s2\<lparr>tournamentContent := c, statusText := Updated clock\<rparr>"
      using Inr Some c by (simp add: loadData_def Let_def)
    then have "statusText (loadData ev clock s) = Updated clock"
      and "cachedRounds (loadData ev clock s) = Some (parseRounds tbl)"
      by (simp_all add: populateTeamFilter_def Let_def)
    with Inr Some show ?thesis by auto
  qed
qed

text \<open>
  Claim C9. A load cycle that fails (the status line ends on the retry text) leaves
  \<^verbatim>\<open>cachedRounds\<close> as it was before the cycle, and the content element holds the error
  message made from the failure: the error the fetch rejected with, or the TypeError of a
  response without a table. A cycle fails exactly in these two cases: once the fetch has
  given a table, parsing and rendering it do not throw.
\<close>

theorem loadData_failure_keeps_cache:
  assumes "statusText (loadData ev clock s) = FailedToLoad"
  shows "cachedRounds (loadData ev clock s) = cachedRounds s
       \<and> (\<exists>e. tournamentContent (loadData ev clock s) = CouldNotLoad e
              \<and> (fetchSheetData ev = Inl e \<or> (fetchSheetData ev = Inr None \<and> e = TypeError)))
       \<and> activeTeamFilter (loadData ev clock s) = activeTeamFilter s"
proof -
  from loadData_failure_cases [of ev clock s]
  consider e where "fetchSheetData ev = Inl e"
      and "loadData ev clock s = loadFailed e (s\<lparr>statusText := Loading\<rparr>)"
    | "fetchSheetData ev = Inr None"
      and "loadData ev clock s = loadFailed TypeError (s\<lparr>statusText := Loading\<rparr>)"
    | clk where "statusText (loadData ev clock s) = Updated clk"
    by blast
  then show ?thesis
  proof cases
    case 1
    then show ?thesis by (simp add: loadFailed_def)
  next
    case 2
    then show ?thesis by (simp add: loadFailed_def)
  next
    case 3
    with assms show ?thesis by simp
  qed
qed

text \<open>
  A cycle whose fetch times out, on a state with one cached round and a grid on the page: the
  round stays cached and the page shows the time-out error.
\<close>

theorem loadData_failure_keeps_cache_witness:
  "statusText (loadData TimerFired ''10:05''
      \<lparr>cachedRounds = Some [\<lparr>time = ''10AM'', matchups = []\<rparr>], activeTeamFilter = [],
       selectValue = [], tournamentContent = Schedule [''10AM''] [], statusText = Updated ''10:04''\<rparr>)
     = FailedToLoad
   \<and> cachedRounds (loadData TimerFired ''10:05''
      \<lparr>cachedRounds = Some [\<lparr>time = ''10AM'', matchups = []\<rparr>], activeTeamFilter = [],
       selectValue = [], tournamentContent = Schedule [''10AM''] [], statusText = Updated ''10:04''\<rparr>)
     = Some [\<lparr>time = ''10AM'', matchups = []\<rparr>]
   \<and> tournamentContent (loadData TimerFired ''10:05''
      \<lparr>cachedRounds = Some [\<lparr>time = ''10AM'', matchups = []\<rparr>], activeTeamFilter = [],
       selectValue = [], tournamentContent = Schedule [''10AM''] [], statusText = Updated ''10:04''\<rparr>)
     = CouldNotLoad (Error ''Request timed out'')"
proof -
  define s where "s =
      \<lparr>cachedRounds = Some [\<lparr>time = ''10AM'', matchups = []\<rparr>], activeTeamFilter = [],
       selectValue = [], tournamentContent = Schedule [''10AM''] [], statusText = Updated ''10:04''\<rparr>"
  have f: "fetchSheetData TimerFired = Inl (Error ''Request timed out'')"
    by (simp add: fetchSheetData_def)
  have h: "statusText (loadData TimerFired ''10:05'' s) = FailedToLoad"
    by (simp add: loadData_def f loadFailed_def)
  note t = loadData_failure_keeps_cache [OF h]
  have c: "cachedRounds (loadData TimerFired ''10:05'' s) = Some [\<lparr>time = ''10AM'', matchups = []\<rparr>]"
    using t by (simp add: s_def)
  have "\<exists>e. tournamentContent (loadData TimerFired ''10:05'' s) = CouldNotLoad e
              \<and> (fetchSheetData TimerFired = Inl e
                  \<or> (fetchSheetData TimerFired = Inr None \<and> e = TypeError))"
    using t by (elim conjE)
  then have m: "tournamentContent (loadData TimerFired ''10:05'' s)
                  = CouldNotLoad (Error ''Request timed out'')"
    by (auto simp: f)
  from h c m show ?thesis unfolding s_def by (intro conjI)
qed

end
